theory Spec2Isabelle
  imports Main "HOL-Library.AList" "HOL-Library.Product_Lexorder"
begin
section \<open>Python values used by the collaboration core\<close>

text \<open>
  A parsed JSON frame, as \<^verbatim>\<open>json.loads\<close> returns it. Numbers are the integers; frames with
  fractional numbers are outside the model. An object is the list of its items in
  insertion order, as a Python dict keeps them.
\<close>

datatype json =
  JNull
  | JBool bool
  | JInt int
  | JStr string
  | JArr "json list"
  | JObj "(string \<times> json) list"

text \<open>Python truth value of a parsed value (\<^verbatim>\<open>not x\<close> is its negation).\<close>

fun truthy :: "json \<Rightarrow> bool" where
  "truthy JNull = False"
| "truthy (JBool b) = b"
| "truthy (JInt n) = (n \<noteq> 0)"
| "truthy (JStr s) = (s \<noteq> [])"
| "truthy (JArr xs) = (xs \<noteq> [])"
| "truthy (JObj kvs) = (kvs \<noteq> [])"

text \<open>\<^verbatim>\<open>d.get(key, default)\<close> on a dict with string keys.\<close>

definition dict_get :: "(string \<times> json) list \<Rightarrow> string \<Rightarrow> json \<Rightarrow> json" where
  "dict_get d k dflt = (case map_of d k of None \<Rightarrow> dflt | Some v \<Rightarrow> v)"

text \<open>\<^verbatim>\<open>str(n)\<close> for an integer: decimal digits, with a minus sign when negative.\<close>

definition digit_char :: "nat \<Rightarrow> char" where
  "digit_char d = ''0123456789'' ! d"

function str_nat :: "nat \<Rightarrow> string" where
  "str_nat n = (if n < 10 then [digit_char n] else str_nat (n div 10) @ [digit_char (n mod 10)])"
  by pat_completeness auto
termination
  by (relation "measure id") auto

declare str_nat.simps [simp del]

definition str_int :: "int \<Rightarrow> string" where
  "str_int i = (if i < 0 then CHR ''-'' # str_nat (nat (- i)) else str_nat (nat i))"

text \<open>
  The hashable parsed values: a list or a dict used as a dict key raises \<^verbatim>\<open>TypeError\<close>.
  \<open>str_key\<close> is what an f-string interpolates for such a value.
\<close>

datatype key = KNone | KBool bool | KInt int | KStr string

fun hash_key :: "json \<Rightarrow> key option" where
  "hash_key JNull = Some KNone"
| "hash_key (JBool b) = Some (KBool b)"
| "hash_key (JInt n) = Some (KInt n)"
| "hash_key (JStr s) = Some (KStr s)"
| "hash_key (JArr xs) = None"
| "hash_key (JObj kvs) = None"

fun str_key :: "key \<Rightarrow> string" where
  "str_key KNone = ''None''"
| "str_key (KBool b) = (if b then ''True'' else ''False'')"
| "str_key (KInt n) = str_int n"
| "str_key (KStr s) = s"

section \<open>Connection registry (\<^verbatim>\<open>ConnectionManager\<close>)\<close>

text \<open>
  A socket handle is the identity of the \<^verbatim>\<open>WebSocket\<close> object (\<^verbatim>\<open>id(websocket)\<close>); two
  handles are equal exactly when they are the same object.
\<close>

type_synonym websocket = nat
type_synonym document_id = string
type_synonym user_id = string

datatype py_exception = SendFailed | AttributeError | TypeError | NameError

datatype outcome = Returned | Raised py_exception

text \<open>
  The registry's three dicts, together with what the model needs of the outside world:
  the frames delivered so far (oldest first, each with the handle it went to, the frame
  identified with the value it encodes), and how many times the clock and the uuid
  generator have been read. The inner dicts are iterated by the code, so they keep their
  items in insertion order.
\<close>

record world =
  active_connections :: "document_id \<rightharpoonup> (user_id \<times> websocket) list"
  user_subscriptions :: "user_id \<rightharpoonup> document_id set"
  presence :: "document_id \<rightharpoonup> (user_id \<times> (string \<times> json) list) list"
  sent :: "(websocket \<times> json) list"
  clock :: nat
  uuids :: nat

text \<open>
  The environment of a call: the text of the n-th reading of
  \<^verbatim>\<open>datetime.utcnow().isoformat()\<close>, the n-th \<^verbatim>\<open>uuid.uuid4().hex\<close>, and the handles on
  which a send raises.
\<close>

record env =
  utcnow :: "nat \<Rightarrow> string"
  uuid4_hex :: "nat \<Rightarrow> string"
  send_fails :: "websocket \<Rightarrow> bool"

definition init :: world where
  "init = \<lparr>active_connections = Map.empty, user_subscriptions = Map.empty,
            presence = Map.empty, sent = [], clock = 0, uuids = 0\<rparr>"

definition now :: "env \<Rightarrow> world \<Rightarrow> string \<times> world" where
  "now e w = (utcnow e (clock w), w\<lparr>clock := Suc (clock w)\<rparr>)"

text \<open>\<^verbatim>\<open>defaultdict\<close> lookup: a missing key reads as the empty value (and is created by
  the caller's write-back).\<close>

definition getitem :: "('k \<rightharpoonup> 'v list) \<Rightarrow> 'k \<Rightarrow> 'v list" where
  "getitem m k = (case m k of None \<Rightarrow> [] | Some v \<Rightarrow> v)"

definition connect ::
  "env \<Rightarrow> websocket \<Rightarrow> document_id \<Rightarrow> user_id option \<Rightarrow> world \<Rightarrow> user_id \<times> world" where
  "connect e websocket document_id user_id w =
     (let uid = (case user_id of
                   None \<Rightarrow> ''anonymous_'' @ str_nat websocket
                 | Some u \<Rightarrow> if u = [] then ''anonymous_'' @ str_nat websocket else u);
          w1 = w\<lparr>active_connections := (active_connections w)
                  (document_id \<mapsto> AList.update uid websocket
                     (getitem (active_connections w) document_id))\<rparr>;
          w2 = w1\<lparr>user_subscriptions := (user_subscriptions w1)
                  (uid \<mapsto> insert document_id
                     (case user_subscriptions w1 uid of None \<Rightarrow> {} | Some s \<Rightarrow> s))\<rparr>;
          (ts, w3) = now e w2;
          w4 = w3\<lparr>presence := (presence w3)
                  (document_id \<mapsto> AList.update uid
                     [(''last_seen'', JStr ts), (''status'', JStr ''online'')]
                     (getitem (presence w3) document_id))\<rparr>
      in (uid, w4))"

text \<open>The part of \<^verbatim>\<open>disconnect\<close> after the user id is known.\<close>

definition remove_registration :: "document_id \<Rightarrow> user_id \<Rightarrow> world \<Rightarrow> world" where
  "remove_registration document_id uid w =
     (let w1 = (case active_connections w document_id of
                  None \<Rightarrow> w
                | Some conns \<Rightarrow>
                    if uid \<in> fst ` set conns
                    then w\<lparr>active_connections :=
                            (active_connections w)(document_id \<mapsto> AList.delete uid conns)\<rparr>
                    else w);
          w2 = (case user_subscriptions w1 uid of
                  None \<Rightarrow> w1
                | Some s \<Rightarrow>
                    if s - {document_id} = {}
                    then w1\<lparr>user_subscriptions := (user_subscriptions w1)(uid := None)\<rparr>
                    else w1\<lparr>user_subscriptions :=
                            (user_subscriptions w1)(uid \<mapsto> s - {document_id})\<rparr>)
      in (case presence w2 document_id of
            None \<Rightarrow> w2
          | Some pres \<Rightarrow>
              if uid \<in> fst ` set pres
              then w2\<lparr>presence := (presence w2)(document_id \<mapsto> AList.delete uid pres)\<rparr>
              else w2))"

text \<open>
  \<^verbatim>\<open>disconnect\<close>: with a falsy user id (absent or empty) the document's connections are
  scanned for the handle, the \<^verbatim>\<open>defaultdict\<close> lookup creating the document's entry; a
  user id that is given is used as it is, the handle not being looked at.
\<close>

definition disconnect ::
  "websocket \<Rightarrow> document_id \<Rightarrow> user_id option \<Rightarrow> world \<Rightarrow> world" where
  "disconnect websocket document_id user_id w =
     (case (case user_id of None \<Rightarrow> None | Some u \<Rightarrow> if u = [] then None else Some u) of
        Some uid \<Rightarrow> remove_registration document_id uid w
      | None \<Rightarrow>
          (let conns = getitem (active_connections w) document_id;
               w1 = w\<lparr>active_connections := (active_connections w)(document_id \<mapsto> conns)\<rparr>
           in case find (\<lambda>(uid, ws). ws = websocket) conns of
                None \<Rightarrow> w1
              | Some (uid, ws) \<Rightarrow>
                  if uid = [] then w1 else remove_registration document_id uid w1))"

text \<open>
  One pass of the sending loop of \<^verbatim>\<open>broadcast\<close> over the snapshot of the document's
  connections: an excluded item is skipped, a send that raises is caught and the item is
  remembered in \<open>disconnected\<close>.
\<close>

definition send_text :: "env \<Rightarrow> websocket \<Rightarrow> json \<Rightarrow> world \<Rightarrow> outcome \<times> world" where
  "send_text e websocket message w =
     (if send_fails e websocket then (Raised SendFailed, w)
      else (Returned, w\<lparr>sent := sent w @ [(websocket, message)]\<rparr>))"

fun send_loop ::
  "env \<Rightarrow> json \<Rightarrow> websocket set \<Rightarrow> user_id set \<Rightarrow> (user_id \<times> websocket) list \<Rightarrow>
   (user_id \<times> websocket) list \<Rightarrow> world \<Rightarrow> (user_id \<times> websocket) list \<times> world" where
  "send_loop e message exclude exclude_users [] disconnected w = (disconnected, w)"
| "send_loop e message exclude exclude_users ((uid, connection) # rest) disconnected w =
     (if connection \<in> exclude \<or> uid \<in> exclude_users
      then send_loop e message exclude exclude_users rest disconnected w
      else (case send_text e connection message w of
              (Returned, w') \<Rightarrow> send_loop e message exclude exclude_users rest disconnected w'
            | (Raised x, w') \<Rightarrow>
                send_loop e message exclude exclude_users rest
                  (disconnected @ [(uid, connection)]) w'))"

fun cleanup :: "document_id \<Rightarrow> (user_id \<times> websocket) list \<Rightarrow> world \<Rightarrow> world" where
  "cleanup document_id [] w = w"
| "cleanup document_id ((uid, connection) # rest) w =
     cleanup document_id rest (disconnect connection document_id (Some uid) w)"

definition broadcast ::
  "env \<Rightarrow> document_id \<Rightarrow> json \<Rightarrow> websocket set \<Rightarrow> user_id set \<Rightarrow> world \<Rightarrow> outcome \<times> world" where
  "broadcast e document_id message exclude exclude_users w =
     (case active_connections w document_id of
        None \<Rightarrow> (Returned, w)
      | Some conns \<Rightarrow>
          (let (disconnected, w1) = send_loop e message exclude exclude_users conns [] w
           in (Returned, cleanup document_id disconnected w1)))"

text \<open>\<^verbatim>\<open>{"user_id": user_id, **data}\<close>: later items of the same key replace the value.\<close>

definition user_entry :: "user_id \<times> (string \<times> json) list \<Rightarrow> json" where
  "user_entry p = JObj (fold (\<lambda>(k, v). AList.update k v) (snd p) [(''user_id'', JStr (fst p))])"

definition get_connected_users :: "document_id \<Rightarrow> world \<Rightarrow> json list" where
  "get_connected_users document_id w =
     (case presence w document_id of None \<Rightarrow> [] | Some pres \<Rightarrow> map user_entry pres)"


section \<open>Message router and the built-in handlers\<close>

text \<open>\<^verbatim>\<open>websocket.send_json\<close> serialises and sends on the same transport.\<close>

definition send_json :: "env \<Rightarrow> websocket \<Rightarrow> json \<Rightarrow> world \<Rightarrow> outcome \<times> world" where
  "send_json e websocket message w = send_text e websocket message w"

definition uuid4 :: "env \<Rightarrow> world \<Rightarrow> string \<times> world" where
  "uuid4 e w = (uuid4_hex e (uuids w), w\<lparr>uuids := Suc (uuids w)\<rparr>)"

type_synonym handler =
  "env \<Rightarrow> websocket \<Rightarrow> document_id \<Rightarrow> user_id \<Rightarrow> (string \<times> json) list \<Rightarrow> world \<Rightarrow> outcome \<times> world"

definition handle_cursor_update :: handler where
  "handle_cursor_update e websocket document_id user_id message w =
     (let (ts, w1) = now e w
      in broadcast e document_id
           (JObj [(''type'', JStr ''cursor_update''),
                  (''user_id'', JStr user_id),
                  (''position'', dict_get message ''position'' JNull),
                  (''user_info'', dict_get message ''user_info'' (JObj [])),
                  (''timestamp'', JStr ts)])
           {websocket} {} w1)"

definition handle_content_update :: handler where
  "handle_content_update e websocket document_id user_id message w =
     (let changes = dict_get message ''changes'' (JArr []);
          version = dict_get message ''version'' JNull
      in if \<not> truthy changes \<or> version = JNull
         then send_json e websocket
                (JObj [(''type'', JStr ''error''),
                       (''message'',
                        JStr ''Missing required fields: changes and version are required'')]) w
         else (let (ts, w1) = now e w
               in case broadcast e document_id
                         (JObj [(''type'', JStr ''content_update''),
                                (''user_id'', JStr user_id),
                                (''changes'', changes),
                                (''version'', version),
                                (''timestamp'', JStr ts)])
                         {websocket} {} w1 of
                    (Raised x, w2) \<Rightarrow> (Raised x, w2)
                  | (Returned, w2) \<Rightarrow>
                      (let (ts', w3) = now e w2
                       in send_json e websocket
                            (JObj [(''type'', JStr ''content_update_ack''),
                                   (''version'', version),
                                   (''timestamp'', JStr ts')]) w3)))"

definition handle_comment :: handler where
  "handle_comment e websocket document_id user_id message w =
     (let comment = dict_get message ''comment'' JNull;
          comment_range = dict_get message ''range'' JNull
      in if \<not> truthy comment \<or> \<not> truthy comment_range
         then send_json e websocket
                (JObj [(''type'', JStr ''error''),
                       (''message'',
                        JStr ''Missing required fields: comment and range are required'')]) w
         else (let (hex, w1) = uuid4 e w;
                   comment_id = ''comment_'' @ hex;
                   (timestamp, w2) = now e w1
               in broadcast e document_id
                    (JObj [(''type'', JStr ''comment''),
                           (''id'', JStr comment_id),
                           (''user_id'', JStr user_id),
                           (''comment'', comment),
                           (''range'', comment_range),
                           (''timestamp'', JStr timestamp),
                           (''status'', JStr ''active'')])
                    {} {} w2))"

text \<open>
  The registry built by \<^verbatim>\<open>register_handlers\<close>. The bodies of the \<^verbatim>\<open>presence_update\<close> and
  \<^verbatim>\<open>get_presence\<close> handlers are not needed below and are taken as parameters.
\<close>

definition register_handlers :: "handler \<Rightarrow> handler \<Rightarrow> (string \<rightharpoonup> handler)" where
  "register_handlers handle_presence_update handle_get_presence =
     [''cursor_update'' \<mapsto> handle_cursor_update,
      ''content_update'' \<mapsto> handle_content_update,
      ''comment'' \<mapsto> handle_comment,
      ''presence_update'' \<mapsto> handle_presence_update,
      ''get_presence'' \<mapsto> handle_get_presence]"

text \<open>The update of the sender's \<^verbatim>\<open>last_seen\<close>; the clock is read only when the record exists.\<close>

definition touch :: "env \<Rightarrow> document_id \<Rightarrow> user_id \<Rightarrow> world \<Rightarrow> world" where
  "touch e document_id user_id w =
     (case presence w document_id of
        None \<Rightarrow> w
      | Some pres \<Rightarrow>
          (case map_of pres user_id of
             None \<Rightarrow> w
           | Some data \<Rightarrow>
               (let (ts, w1) = now e w
                in w1\<lparr>presence := (presence w1)
                       (document_id \<mapsto>
                          AList.update user_id (AList.update ''last_seen'' (JStr ts) data) pres)\<rparr>)))"

text \<open>
  The body of the \<^verbatim>\<open>try\<close> of \<^verbatim>\<open>handle_message\<close> once the frame has parsed. \<^verbatim>\<open>message.get\<close>
  exists only on a dict; the handlers' keys are strings, so a number or a boolean finds no
  handler and a list or a dict cannot be looked up at all.
\<close>

definition dispatch ::
  "env \<Rightarrow> (string \<rightharpoonup> handler) \<Rightarrow> websocket \<Rightarrow> document_id \<Rightarrow> user_id \<Rightarrow> json \<Rightarrow> world \<Rightarrow>
   outcome \<times> world" where
  "dispatch e handlers websocket document_id user_id message w =
     (case message of
        JObj items \<Rightarrow>
          (let message_type = dict_get items ''type'' JNull
           in if \<not> truthy message_type
              then send_json e websocket
                     (JObj [(''error'', JStr ''Message type is required'')]) w
              else (case hash_key message_type of
                      None \<Rightarrow> (Raised TypeError, w)
                    | Some k \<Rightarrow>
                        (case (case k of KStr s \<Rightarrow> handlers s | _ \<Rightarrow> None) of
                           None \<Rightarrow>
                             send_json e websocket
                               (JObj [(''error'',
                                       JStr (''Unknown message type: '' @ str_key k))]) w
                         | Some handler \<Rightarrow>
                             handler e websocket document_id user_id items
                               (touch e document_id user_id w))))
      | _ \<Rightarrow> (Raised AttributeError, w))"

text \<open>
  \<^verbatim>\<open>handle_message\<close>; the frame is given as the result of \<^verbatim>\<open>json.loads\<close>, \<open>None\<close> when it
  raises \<^verbatim>\<open>JSONDecodeError\<close>. An exception raised inside an \<^verbatim>\<open>except\<close> clause leaves the
  function.
\<close>

definition handle_message ::
  "env \<Rightarrow> (string \<rightharpoonup> handler) \<Rightarrow> websocket \<Rightarrow> document_id \<Rightarrow> user_id \<Rightarrow> json option \<Rightarrow>
   world \<Rightarrow> outcome \<times> world" where
  "handle_message e handlers websocket document_id user_id data w =
     (case data of
        None \<Rightarrow> send_json e websocket (JObj [(''error'', JStr ''Invalid JSON format'')]) w
      | Some message \<Rightarrow>
          (case dispatch e handlers websocket document_id user_id message w of
             (Returned, w') \<Rightarrow> (Returned, w')
           | (Raised x, w') \<Rightarrow>
               send_json e websocket (JObj [(''error'', JStr ''Internal server error'')]) w'))"
section \<open>Reachable registry states\<close>

definition consistent :: "world \<Rightarrow> bool" where
  "consistent w =
     (\<forall>u d. (\<exists>s. user_subscriptions w u = Some s \<and> d \<in> s) \<longleftrightarrow>
            u \<in> fst ` set (getitem (active_connections w) d))"

inductive reachable :: "world \<Rightarrow> bool" where
  reach_init: "reachable init"
| reach_connect: "reachable w \<Longrightarrow> reachable (snd (connect e websocket d user_id w))"
| reach_disconnect: "reachable w \<Longrightarrow> reachable (disconnect websocket d user_id w)"
| reach_broadcast:
    "reachable w \<Longrightarrow> reachable (snd (broadcast e d message exclude exclude_users w))"


section \<open>Lines and the library sequence matcher (\<^verbatim>\<open>str.splitlines\<close>, \<^verbatim>\<open>difflib\<close>)\<close>

text \<open>
  The version store computes its diffs with \<^verbatim>\<open>str.splitlines\<close>, \<^verbatim>\<open>difflib.SequenceMatcher\<close>
  and \<^verbatim>\<open>difflib.unified_diff\<close> of the Python library; the definitions of this section
  follow the library's code, loop by loop.

  A string is the list of its code points, those below 256. Of these the line boundaries
  of \<^verbatim>\<open>str.splitlines\<close> are LF, VT, FF, CR, FS, GS, RS and NEL, with CR LF counting as
  one boundary. A last line without a boundary is kept when it is not empty.
\<close>

definition is_linebreak :: "char \<Rightarrow> bool" where
  "is_linebreak c \<longleftrightarrow>
     c \<in> {CHR 0x0A, CHR 0x0B, CHR 0x0C, CHR 0x0D, CHR 0x1C, CHR 0x1D, CHR 0x1E, CHR 0x85}"

fun split_from :: "bool \<Rightarrow> string \<Rightarrow> string \<Rightarrow> string list" where
  "split_from keepends line [] = (if line = [] then [] else [line])"
| "split_from keepends line [c] =
     (if is_linebreak c then [line @ (if keepends then [c] else [])]
      else [line @ [c]])"
| "split_from keepends line (c # d # rest) =
     (if c = CHR 0x0D \<and> d = CHR 0x0A
      then (line @ (if keepends then [c, d] else [])) # split_from keepends [] rest
      else if is_linebreak c
      then (line @ (if keepends then [c] else [])) # split_from keepends [] (d # rest)
      else split_from keepends (line @ [c]) (d # rest))"

definition splitlines :: "bool \<Rightarrow> string \<Rightarrow> string list" where
  "splitlines keepends s = split_from keepends [] s"

text \<open>
  \<^verbatim>\<open>SequenceMatcher(None, a, b)\<close>: no junk predicate, \<^verbatim>\<open>autojunk\<close> left at its default. For
  an element \<open>x\<close>, \<open>b2j b x\<close> is what \<^verbatim>\<open>b2j.get(x, [])\<close> reads after \<^verbatim>\<open>__chain_b\<close>: the
  increasing positions of \<open>x\<close> in \<open>b\<close>, or nothing when \<open>b\<close> has at least 200 elements and
  \<open>x\<close> occurs more than \<open>len(b) // 100 + 1\<close> times (a popular element).
\<close>

definition indices_of :: "'a \<Rightarrow> 'a list \<Rightarrow> nat list" where
  "indices_of x b = filter (\<lambda>j. b ! j = x) [0..<length b]"

definition popular :: "'a list \<Rightarrow> 'a \<Rightarrow> bool" where
  "popular b x \<longleftrightarrow> 200 \<le> length b \<and> length b div 100 + 1 < length (indices_of x b)"

definition b2j :: "'a list \<Rightarrow> 'a \<Rightarrow> nat list" where
  "b2j b x = (if popular b x then [] else indices_of x b)"

type_synonym match = "nat \<times> nat \<times> nat"

text \<open>
  The inner loop of \<^verbatim>\<open>find_longest_match\<close> over the positions \<open>j\<close> of \<open>a[i]\<close> in \<open>b\<close>:
  \<^verbatim>\<open>continue\<close> below \<open>blo\<close>, \<^verbatim>\<open>break\<close> from \<open>bhi\<close> on. The key \<open>j - 1\<close> of the lookup is
  \<open>-1\<close> for \<open>j = 0\<close>, which no dict has.
\<close>

fun longest_inner ::
  "nat list \<Rightarrow> nat \<Rightarrow> nat \<Rightarrow> nat \<Rightarrow> (nat \<rightharpoonup> nat) \<Rightarrow> (nat \<rightharpoonup> nat) \<times> match \<Rightarrow>
   (nat \<rightharpoonup> nat) \<times> match" where
  "longest_inner [] blo bhi i j2len (newj2len, best) = (newj2len, best)"
| "longest_inner (j # js) blo bhi i j2len (newj2len, (besti, bestj, bestsize)) =
     (if j < blo then longest_inner js blo bhi i j2len (newj2len, (besti, bestj, bestsize))
      else if bhi \<le> j then (newj2len, (besti, bestj, bestsize))
      else (let k = (if j = 0 then 0 else case j2len (j - 1) of None \<Rightarrow> 0 | Some v \<Rightarrow> v) + 1
            in longest_inner js blo bhi i j2len
                 (newj2len(j \<mapsto> k),
                  if bestsize < k then (Suc i - k, Suc j - k, k)
                  else (besti, bestj, bestsize))))"

definition longest_rows ::
  "'a list \<Rightarrow> 'a list \<Rightarrow> nat \<Rightarrow> nat \<Rightarrow> nat \<Rightarrow> nat \<Rightarrow> (nat \<rightharpoonup> nat) \<times> match" where
  "longest_rows a b alo ahi blo bhi =
     fold (\<lambda>i (j2len, best). longest_inner (b2j b (a ! i)) blo bhi i j2len (Map.empty, best))
       [alo..<ahi] (Map.empty, (alo, blo, 0))"

text \<open>The two loops that extend the best match by equal elements on each end; with
  no junk the two loops after them never run.\<close>

function extend_left :: "'a list \<Rightarrow> 'a list \<Rightarrow> nat \<Rightarrow> nat \<Rightarrow> match \<Rightarrow> match" where
  "extend_left a b alo blo (besti, bestj, bestsize) =
     (if alo < besti \<and> blo < bestj \<and> a ! (besti - 1) = b ! (bestj - 1)
      then extend_left a b alo blo (besti - 1, bestj - 1, bestsize + 1)
      else (besti, bestj, bestsize))"
  by pat_completeness auto
termination
  by (relation "measure (\<lambda>(a, b, alo, blo, besti, bestj, bestsize). besti)") auto

function extend_right :: "'a list \<Rightarrow> 'a list \<Rightarrow> nat \<Rightarrow> nat \<Rightarrow> match \<Rightarrow> match" where
  "extend_right a b ahi bhi (besti, bestj, bestsize) =
     (if besti + bestsize < ahi \<and> bestj + bestsize < bhi \<and>
         a ! (besti + bestsize) = b ! (bestj + bestsize)
      then extend_right a b ahi bhi (besti, bestj, bestsize + 1)
      else (besti, bestj, bestsize))"
  by pat_completeness auto
termination
  by (relation "measure (\<lambda>(a, b, ahi, bhi, besti, bestj, bestsize). ahi - (besti + bestsize))")
     auto

declare extend_left.simps [simp del] extend_right.simps [simp del]

definition find_longest_match ::
  "'a list \<Rightarrow> 'a list \<Rightarrow> nat \<Rightarrow> nat \<Rightarrow> nat \<Rightarrow> nat \<Rightarrow> match" where
  "find_longest_match a b alo ahi blo bhi =
     extend_right a b ahi bhi
       (extend_left a b alo blo (snd (longest_rows a b alo ahi blo bhi)))"

text \<open>
  The work loop of \<^verbatim>\<open>get_matching_blocks\<close>. The Python list \<open>queue\<close> is used as a stack,
  kept here with its top first. The loop is not structurally bounded, so its result is
  optional: \<open>None\<close> stands for a loop that does not end.
\<close>

partial_function (option) matching_loop ::
  "'a list \<Rightarrow> 'a list \<Rightarrow> (nat \<times> nat \<times> nat \<times> nat) list \<Rightarrow> match list \<Rightarrow> match list option" where
  "matching_loop a b queue matching_blocks =
     (case queue of
        [] \<Rightarrow> Some matching_blocks
      | (alo, ahi, blo, bhi) # rest \<Rightarrow>
          (case find_longest_match a b alo ahi blo bhi of
             (i, j, k) \<Rightarrow>
               if k \<noteq> 0
               then matching_loop a b
                      ((if i + k < ahi \<and> j + k < bhi then [(i + k, ahi, j + k, bhi)] else []) @
                       (if alo < i \<and> blo < j then [(alo, i, blo, j)] else []) @ rest)
                      (matching_blocks @ [(i, j, k)])
               else matching_loop a b rest matching_blocks))"

declare matching_loop.simps [code]

text \<open>The pass that merges adjacent blocks, with its state \<open>(i1, j1, k1)\<close>.\<close>

fun collapse :: "match list \<Rightarrow> match \<Rightarrow> match list \<Rightarrow> match list" where
  "collapse [] (i1, j1, k1) non_adjacent =
     (if k1 \<noteq> 0 then non_adjacent @ [(i1, j1, k1)] else non_adjacent)"
| "collapse ((i2, j2, k2) # blocks) (i1, j1, k1) non_adjacent =
     (if i1 + k1 = i2 \<and> j1 + k1 = j2
      then collapse blocks (i1, j1, k1 + k2) non_adjacent
      else collapse blocks (i2, j2, k2)
             (if k1 \<noteq> 0 then non_adjacent @ [(i1, j1, k1)] else non_adjacent))"

definition get_matching_blocks :: "'a list \<Rightarrow> 'a list \<Rightarrow> match list option" where
  "get_matching_blocks a b =
     (case matching_loop a b [(0, length a, 0, length b)] [] of
        None \<Rightarrow> None
      | Some matching_blocks \<Rightarrow>
          Some (collapse (sort matching_blocks) (0, 0, 0) [] @ [(length a, length b, 0)]))"

datatype tag = Replace | Delete | Insert | Equal

type_synonym opcode = "tag \<times> nat \<times> nat \<times> nat \<times> nat"

fun opcodes_from :: "match list \<Rightarrow> nat \<Rightarrow> nat \<Rightarrow> opcode list \<Rightarrow> opcode list" where
  "opcodes_from [] i j answer = answer"
| "opcodes_from ((ai, bj, sz) # blocks) i j answer =
     (let answer1 =
            (if i < ai \<and> j < bj then answer @ [(Replace, i, ai, j, bj)]
             else if i < ai then answer @ [(Delete, i, ai, j, bj)]
             else if j < bj then answer @ [(Insert, i, ai, j, bj)]
             else answer);
          answer2 =
            (if sz \<noteq> 0 then answer1 @ [(Equal, ai, ai + sz, bj, bj + sz)] else answer1)
      in opcodes_from blocks (ai + sz) (bj + sz) answer2)"

definition get_opcodes :: "'a list \<Rightarrow> 'a list \<Rightarrow> opcode list option" where
  "get_opcodes a b = map_option (\<lambda>blocks. opcodes_from blocks 0 0 []) (get_matching_blocks a b)"

text \<open>
  \<^verbatim>\<open>get_grouped_opcodes(n)\<close>, from the opcodes. Where Python computes \<open>i2 - n\<close> below zero
  the maximum with \<open>i1\<close> is \<open>i1\<close>, as it is with the truncated difference.
\<close>

definition fix_first :: "nat \<Rightarrow> opcode list \<Rightarrow> opcode list" where
  "fix_first n codes =
     (case codes of
        (Equal, i1, i2, j1, j2) # rest \<Rightarrow> (Equal, max i1 (i2 - n), i2, max j1 (j2 - n), j2) # rest
      | _ \<Rightarrow> codes)"

definition fix_last :: "nat \<Rightarrow> opcode list \<Rightarrow> opcode list" where
  "fix_last n codes =
     (case rev codes of
        (Equal, i1, i2, j1, j2) # rest \<Rightarrow>
          rev rest @ [(Equal, i1, min i2 (i1 + n), j1, min j2 (j1 + n))]
      | _ \<Rightarrow> codes)"

fun group_loop ::
  "nat \<Rightarrow> opcode list \<Rightarrow> opcode list \<Rightarrow> opcode list list \<Rightarrow> opcode list list \<times> opcode list" where
  "group_loop n [] grp yielded = (yielded, grp)"
| "group_loop n ((tg, i1, i2, j1, j2) # codes) grp yielded =
     (if tg = Equal \<and> n + n < i2 - i1
      then group_loop n codes [(tg, max i1 (i2 - n), i2, max j1 (j2 - n), j2)]
             (yielded @ [grp @ [(tg, i1, min i2 (i1 + n), j1, min j2 (j1 + n))]])
      else group_loop n codes (grp @ [(tg, i1, i2, j1, j2)]) yielded)"

definition get_grouped_opcodes :: "nat \<Rightarrow> opcode list \<Rightarrow> opcode list list" where
  "get_grouped_opcodes n opcodes =
     (let codes = (if opcodes = [] then [(Equal, 0, 1, 0, 1)] else opcodes);
          (yielded, grp) = group_loop n (fix_last n (fix_first n codes)) [] []
      in if grp \<noteq> [] \<and> \<not> (length grp = 1 \<and> fst (hd grp) = Equal)
         then yielded @ [grp] else yielded)"

definition format_range_unified :: "nat \<Rightarrow> nat \<Rightarrow> string" where
  "format_range_unified start stop =
     (let beginning = start + 1; len = stop - start
      in if len = 1 then str_nat beginning
         else str_nat (if len = 0 then beginning - 1 else beginning) @ '','' @ str_nat len)"

text \<open>\<^verbatim>\<open>a[i1:i2]\<close>\<close>

definition slice :: "'a list \<Rightarrow> nat \<Rightarrow> nat \<Rightarrow> 'a list" where
  "slice xs i1 i2 = take (i2 - i1) (drop i1 xs)"

definition group_lines :: "string list \<Rightarrow> string list \<Rightarrow> opcode \<Rightarrow> string list" where
  "group_lines a b code =
     (case code of
        (tg, i1, i2, j1, j2) \<Rightarrow>
          if tg = Equal then map (\<lambda>line. CHR '' '' # line) (slice a i1 i2)
          else (if tg = Replace \<or> tg = Delete
                then map (\<lambda>line. CHR ''-'' # line) (slice a i1 i2) else []) @
               (if tg = Replace \<or> tg = Insert
                then map (\<lambda>line. CHR ''+'' # line) (slice b j1 j2) else []))"

definition hunk :: "string list \<Rightarrow> string list \<Rightarrow> string \<Rightarrow> opcode list \<Rightarrow> string list" where
  "hunk a b lineterm grp =
     (case (hd grp, last grp) of
        ((t1, f1, f2, f3, f4), (t2, l1, l2, l3, l4)) \<Rightarrow>
          (''@@ -'' @ format_range_unified f1 l2 @ '' +'' @ format_range_unified f3 l4 @
           '' @@'' @ lineterm) # concat (map (group_lines a b) grp))"

definition unified_diff ::
  "string list \<Rightarrow> string list \<Rightarrow> string \<Rightarrow> string \<Rightarrow> string \<Rightarrow> string \<Rightarrow> nat \<Rightarrow> string \<Rightarrow>
   string list option" where
  "unified_diff a b fromfile tofile fromfiledate tofiledate n lineterm =
     (case get_opcodes a b of
        None \<Rightarrow> None
      | Some opcodes \<Rightarrow>
          (let groups = get_grouped_opcodes n opcodes;
               fromdate = (if fromfiledate \<noteq> [] then CHR 0x09 # fromfiledate else []);
               todate = (if tofiledate \<noteq> [] then CHR 0x09 # tofiledate else [])
           in Some (if groups = [] then []
                    else (''--- '' @ fromfile @ fromdate @ lineterm) #
                         (''+++ '' @ tofile @ todate @ lineterm) #
                         concat (map (hunk a b lineterm) groups))))"

text \<open>\<^verbatim>\<open>sep.join(lines)\<close>\<close>

fun join :: "string \<Rightarrow> string list \<Rightarrow> string" where
  "join sep [] = []"
| "join sep [x] = x"
| "join sep (x # y # rest) = x @ sep @ join sep (y # rest)"


section \<open>Version store (\<^verbatim>\<open>DocumentCollaboration\<close>, \<^verbatim>\<open>DocumentService\<close>)\<close>

text \<open>
  A version as the dataclass has it; \<open>timestamp\<close> holds the text of
  \<^verbatim>\<open>timestamp.isoformat()\<close>. The id and the timestamp are produced by \<^verbatim>\<open>uuid.uuid4()\<close> and
  the clock when the version is made, and are arguments of the model.
\<close>

record DocumentVersion =
  content :: string
  author :: string
  version_id :: string
  timestamp :: string
  message :: string
  comments :: "json list"

record DocumentCollaboration =
  document_id :: document_id
  versions :: "DocumentVersion list"

definition new_collaboration :: "document_id \<Rightarrow> DocumentCollaboration" where
  "new_collaboration d = \<lparr>document_id = d, versions = []\<rparr>"

definition add_version ::
  "string \<Rightarrow> string \<Rightarrow> string \<Rightarrow> string \<times> string \<Rightarrow> DocumentCollaboration \<Rightarrow>
   DocumentVersion \<times> DocumentCollaboration" where
  "add_version c a m fresh collab =
     (let version = \<lparr>content = c, author = a, version_id = fst fresh, timestamp = snd fresh,
                      message = m, comments = []\<rparr>
      in (version, collab\<lparr>versions := versions collab @ [version]\<rparr>))"

definition get_version :: "string \<Rightarrow> DocumentCollaboration \<Rightarrow> DocumentVersion option" where
  "get_version vid collab = find (\<lambda>v. version_id v = vid) (versions collab)"

record changes =
  added :: nat
  removed :: nat
  modified :: nat

text \<open>
  \<^verbatim>\<open>sum(size for op, i1, i2, j1, j2 in diff.get_opcodes() if op == tag)\<close>. The name \<^verbatim>\<open>size\<close>
  is bound neither by the loop nor in the module nor as a builtin, so producing the first
  summand raises \<^verbatim>\<open>NameError\<close>; with no opcode of the tag the sum is 0.
\<close>

definition sum_size :: "tag \<Rightarrow> opcode list \<Rightarrow> py_exception + nat" where
  "sum_size t opcodes =
     (if filter (\<lambda>(op, i1, i2, j1, j2). op = t) opcodes = [] then Inr 0 else Inl NameError)"

definition changes_of :: "opcode list \<Rightarrow> py_exception + changes" where
  "changes_of opcodes =
     (case sum_size Insert opcodes of
        Inl x \<Rightarrow> Inl x
      | Inr a \<Rightarrow>
          (case sum_size Delete opcodes of
             Inl x \<Rightarrow> Inl x
           | Inr r \<Rightarrow>
               Inr \<lparr>added = a, removed = r,
                    modified = length (filter (\<lambda>(op, i1, i2, j1, j2). op = Replace) opcodes)\<rparr>))"

definition calculate_changes :: "string \<Rightarrow> string \<Rightarrow> (py_exception + changes) option" where
  "calculate_changes old_content new_content =
     map_option changes_of
       (get_opcodes (splitlines False old_content) (splitlines False new_content))"

text \<open>
  What the specification asks of the three counters, on the same opcodes: inserted lines,
  deleted lines, replace groups.
\<close>

definition spec_changes :: "opcode list \<Rightarrow> changes" where
  "spec_changes opcodes =
     \<lparr>added = sum_list (map (\<lambda>(op, i1, i2, j1, j2). if op = Insert then j2 - j1 else 0) opcodes),
      removed = sum_list (map (\<lambda>(op, i1, i2, j1, j2). if op = Delete then i2 - i1 else 0) opcodes),
      modified = length (filter (\<lambda>(op, i1, i2, j1, j2). op = Replace) opcodes)\<rparr>"

text \<open>The dict returned by \<^verbatim>\<open>get_version_diff\<close>: the error dict or the four entries.\<close>

datatype diff_result =
  Error string
  | Diff (old_version: string) (new_version: string) (diff: string) (changes: changes)

definition get_version_diff ::
  "string \<Rightarrow> string \<Rightarrow> DocumentCollaboration \<Rightarrow> (py_exception + diff_result) option" where
  "get_version_diff old_version_id new_version_id collab =
     (case (get_version old_version_id collab, get_version new_version_id collab) of
        (Some old, Some new) \<Rightarrow>
          (case unified_diff (splitlines True (content old)) (splitlines True (content new))
                  (''version_'' @ take 8 old_version_id) (''version_'' @ take 8 new_version_id)
                  (timestamp old) (timestamp new) 3 [] of
             None \<Rightarrow> None
           | Some lines \<Rightarrow>
               (case calculate_changes (content old) (content new) of
                  None \<Rightarrow> None
                | Some (Inl x) \<Rightarrow> Some (Inl x)
                | Some (Inr c) \<Rightarrow>
                    Some (Inr (Diff old_version_id new_version_id (join [CHR 0x0A] lines) c))))
      | _ \<Rightarrow> Some (Inr (Error ''One or both versions not found'')))"

text \<open>\<^verbatim>\<open>DocumentService\<close>: the sessions by document id.\<close>

type_synonym sessions = "document_id \<rightharpoonup> DocumentCollaboration"

definition create_document_version ::
  "document_id \<Rightarrow> string \<Rightarrow> string \<Rightarrow> string \<Rightarrow> string \<times> string \<Rightarrow> sessions \<Rightarrow>
   DocumentVersion \<times> sessions" where
  "create_document_version d c a m fresh collaboration_sessions =
     (let collaboration = (case collaboration_sessions d of
                             None \<Rightarrow> new_collaboration d
                           | Some collab \<Rightarrow> collab);
          (version, collaboration') = add_version c a m fresh collaboration
      in (version, collaboration_sessions(d \<mapsto> collaboration')))"

definition service_get_version_diff ::
  "document_id \<Rightarrow> string \<Rightarrow> string \<Rightarrow> sessions \<Rightarrow> (py_exception + diff_result) option" where
  "service_get_version_diff d version1_id version2_id collaboration_sessions =
     (case collaboration_sessions d of
        None \<Rightarrow> Some (Inr (Error ''Document not found''))
      | Some collab \<Rightarrow> get_version_diff version1_id version2_id collab)"


section \<open>Sequences of version commits\<close>

text \<open>
  What \<^verbatim>\<open>get_document_versions\<close> lists for a version, and the list for a document.
\<close>

definition version_summary :: "DocumentVersion \<Rightarrow> (string \<times> json) list" where
  "version_summary v =
     [(''version_id'', JStr (version_id v)),
      (''timestamp'', JStr (timestamp v)),
      (''author'', JStr (author v)),
      (''message'', JStr (message v)),
      (''content_length'', JInt (int (length (content v))))]"

definition get_document_versions :: "document_id \<Rightarrow> sessions \<Rightarrow> (string \<times> json) list list" where
  "get_document_versions d collaboration_sessions =
     (case collaboration_sessions d of
        None \<Rightarrow> []
      | Some collab \<Rightarrow> map version_summary (versions collab))"

text \<open>
  A sequence of calls of \<^verbatim>\<open>create_document_version\<close>: a call is a document, content,
  author, message and the fresh id and timestamp.
\<close>

fun service_run ::
  "(document_id \<times> string \<times> string \<times> string \<times> string \<times> string) list \<Rightarrow> sessions \<Rightarrow> sessions" where
  "service_run [] collaboration_sessions = collaboration_sessions"
| "service_run ((d, c, a, m, fresh) # calls) collaboration_sessions =
     service_run calls (snd (create_document_version d c a m fresh collaboration_sessions))"

definition stored_versions :: "document_id \<Rightarrow> sessions \<Rightarrow> DocumentVersion list" where
  "stored_versions d collaboration_sessions =
     (case collaboration_sessions d of None \<Rightarrow> [] | Some collab \<Rightarrow> versions collab)"


section \<open>Notions used in the proofs\<close>

text \<open>The version the store makes from the arguments of a call.\<close>

definition version_of_call ::
  "document_id \<times> string \<times> string \<times> string \<times> string \<times> string \<Rightarrow> DocumentVersion" where
  "version_of_call call =
     (case call of
        (d, c, a, m, fresh) \<Rightarrow>
          \<lparr>content = c, author = a, version_id = fst fresh, timestamp = snd fresh,
           message = m, comments = []\<rparr>)"

text \<open>
  For the comparison of a sequence with itself: \<open>np_run a k m\<close> says that the \<open>k\<close>
  elements of \<open>a\<close> that end at position \<open>m\<close> exist and that none of them is popular. The
  three predicates that follow describe the dict of the previous row, the best match
  between two rows and the state inside a row of \<^verbatim>\<open>find_longest_match\<close>.
\<close>

definition np_run :: "'a list \<Rightarrow> nat \<Rightarrow> nat \<Rightarrow> bool" where
  "np_run a k m \<longleftrightarrow> k \<le> Suc m \<and> (\<forall>t<k. \<not> popular a (a ! (m - t)))"

definition prev_row_ok :: "'a list \<Rightarrow> nat \<Rightarrow> (nat \<rightharpoonup> nat) \<Rightarrow> bool" where
  "prev_row_ok a i j2len \<longleftrightarrow>
     (\<forall>j k. j2len j = Some k \<longrightarrow> 1 \<le> i \<and> np_run a k (min (i - 1) j)) \<and>
     (1 \<le> i \<longrightarrow> \<not> popular a (a ! (i - 1)) \<longrightarrow>
        (\<exists>kd. j2len (i - 1) = Some kd \<and> (\<forall>k. np_run a k (i - 1) \<longrightarrow> k \<le> kd)))"

definition best_ok :: "'a list \<Rightarrow> nat \<Rightarrow> match \<Rightarrow> bool" where
  "best_ok a i best \<longleftrightarrow>
     (case best of
        (bi, bj, bs) \<Rightarrow> bi = bj \<and> bi + bs \<le> i \<and> (\<forall>i'<i. \<forall>k. np_run a k i' \<longrightarrow> k \<le> bs))"

definition cell_ok :: "'a list \<Rightarrow> nat \<Rightarrow> bool \<Rightarrow> (nat \<rightharpoonup> nat) \<times> match \<Rightarrow> bool" where
  "cell_ok a i diag st \<longleftrightarrow>
     (case st of
        (newj2len, bi, bj, bs) \<Rightarrow>
          bi = bj \<and> bi + bs \<le> Suc i \<and> (\<forall>i'<i. \<forall>k. np_run a k i' \<longrightarrow> k \<le> bs) \<and>
          (\<forall>j k. newj2len j = Some k \<longrightarrow> np_run a k (min i j)) \<and>
          (diag \<longrightarrow> (\<exists>kd. newj2len i = Some kd \<and> kd \<le> bs \<and>
                          (\<forall>k. np_run a k i \<longrightarrow> k \<le> kd))))"

text \<open>The bound on the entries of the dict \<open>j2len\<close> when row \<open>i\<close> begins.\<close>

definition j2len_bounded :: "nat \<Rightarrow> (nat \<rightharpoonup> nat) \<Rightarrow> bool" where
  "j2len_bounded i j2len \<longleftrightarrow> (\<forall>j v. j2len j = Some v \<longrightarrow> v \<le> i \<and> v \<le> Suc j)"


section \<open>Concrete sessions used in the examples\<close>

definition example_env :: env where
  "example_env = \<lparr>utcnow = (\<lambda>n. ''T'' @ str_nat n), uuid4_hex = (\<lambda>n. ''u'' @ str_nat n),
                   send_fails = (\<lambda>c. c = 3)\<rparr>"

definition example_handlers :: "string \<rightharpoonup> handler" where
  "example_handlers =
     register_handlers (\<lambda>e c d u m w. (Returned, w)) (\<lambda>e c d u m w. (Returned, w))"

definition two_users :: world where
  "two_users = snd (connect example_env 2 ''d1'' (Some ''bob'')
                 (snd (connect example_env 1 ''d1'' (Some ''alice'') init)))"

definition three_users :: world where
  "three_users = snd (connect example_env 3 ''d1'' (Some ''carol'') two_users)"

definition hello_sessions :: "string \<Rightarrow> string \<Rightarrow> string \<Rightarrow> string \<Rightarrow> sessions" where
  "hello_sessions id1 t1 id2 t2 =
     snd (create_document_version ''d1'' ''hello world'' ''alice'' [] (id2, t2)
       (snd (create_document_version ''d1'' ''hello'' ''alice'' [] (id1, t1) Map.empty)))"

definition insert_sessions :: sessions where
  "insert_sessions =
     snd (create_document_version ''d1'' [CHR ''a'', CHR 0x0A, CHR ''b''] ''alice'' []
            (''v2'', ''2024-01-02T00:00:00'')
       (snd (create_document_version ''d1'' ''a'' ''alice'' []
               (''v1'', ''2024-01-01T00:00:00'') Map.empty)))"
section \<open>Properties of the connection registry\<close>

lemma keys_delete: "fst ` set (AList.delete k al) = fst ` set al - {k}"
  by (induction al) auto

lemma remove_registration_active:
  "getitem (active_connections (remove_registration d uid w)) d' =
     (if d' = d then AList.delete uid (getitem (active_connections w) d)
      else getitem (active_connections w) d')"
  by (auto simp: remove_registration_def getitem_def Let_def split: option.splits)

lemma remove_registration_subs:
  "(\<exists>s. user_subscriptions (remove_registration d uid w) u = Some s \<and> d' \<in> s) \<longleftrightarrow>
     (\<exists>s. user_subscriptions w u = Some s \<and> d' \<in> s) \<and> \<not> (u = uid \<and> d' = d)"
  by (auto simp: remove_registration_def getitem_def Let_def split: option.splits)


lemma remove_registration_other:
  "sent (remove_registration d uid w) = sent w"
  "clock (remove_registration d uid w) = clock w"
  "uuids (remove_registration d uid w) = uuids w"
  by (auto simp: remove_registration_def Let_def split: option.splits)

lemma consistent_remove_registration:
  "consistent w \<Longrightarrow> consistent (remove_registration d uid w)"
  unfolding consistent_def
  by (simp only: remove_registration_active remove_registration_subs) (auto simp: keys_delete)

lemma getitem_upd: "getitem (m(k \<mapsto> v)) k' = (if k' = k then v else getitem m k')"
  by (simp add: getitem_def)

lemma getitem_touch_key: "getitem (m(k \<mapsto> getitem m k)) k' = getitem m k'"
  by (simp add: getitem_def)

lemma consistent_disconnect: "consistent w \<Longrightarrow> consistent (disconnect websocket d user_id w)"
proof -
  assume c: "consistent w"
  let ?w1 = "w\<lparr>active_connections :=
                (active_connections w)(d \<mapsto> getitem (active_connections w) d)\<rparr>"
  have "consistent ?w1"
    using c by (simp add: consistent_def getitem_touch_key)
  then show ?thesis
    using c by (auto simp: disconnect_def Let_def consistent_remove_registration
        split: option.splits)
qed

lemma connect_active:
  "getitem (active_connections (snd (connect e websocket d user_id w))) d' =
     (if d' = d
      then AList.update (fst (connect e websocket d user_id w)) websocket
             (getitem (active_connections w) d)
      else getitem (active_connections w) d')"
  by (simp add: connect_def Let_def now_def getitem_upd split: option.splits)

lemma connect_subs:
  "(\<exists>s. user_subscriptions (snd (connect e websocket d user_id w)) u = Some s \<and> d' \<in> s) \<longleftrightarrow>
     (\<exists>s. user_subscriptions w u = Some s \<and> d' \<in> s) \<or>
     (u = fst (connect e websocket d user_id w) \<and> d' = d)"
  by (auto simp: connect_def Let_def now_def split: option.splits)

lemma consistent_connect: "consistent w \<Longrightarrow> consistent (snd (connect e websocket d user_id w))"
  unfolding consistent_def
  by (simp only: connect_active connect_subs) (auto simp: AList.dom_update)

lemma consistent_cleanup: "consistent w \<Longrightarrow> consistent (cleanup d ds w)"
  by (induction d ds w rule: cleanup.induct) (auto simp: consistent_disconnect)

lemma send_text_registry:
  "active_connections (snd (send_text e c m w)) = active_connections w"
  "user_subscriptions (snd (send_text e c m w)) = user_subscriptions w"
  "presence (snd (send_text e c m w)) = presence w"
  by (auto simp: send_text_def)

lemma send_loop_registry:
  "active_connections (snd (send_loop e m ex exu conns disc w)) = active_connections w \<and>
   user_subscriptions (snd (send_loop e m ex exu conns disc w)) = user_subscriptions w \<and>
   presence (snd (send_loop e m ex exu conns disc w)) = presence w"
  by (induction e m ex exu conns disc w rule: send_loop.induct)
     (auto simp: send_text_def)

lemma consistent_send_loop:
  "consistent w \<Longrightarrow> consistent (snd (send_loop e m ex exu conns disc w))"
  by (simp add: consistent_def send_loop_registry)

lemma consistent_broadcast:
  "consistent w \<Longrightarrow> consistent (snd (broadcast e d m ex exu w))"
proof (cases "active_connections w d")
  case None
  assume "consistent w"
  with None show ?thesis by (simp add: broadcast_def)
next
  case (Some conns)
  assume c: "consistent w"
  obtain disc w1 where sl: "send_loop e m ex exu conns [] w = (disc, w1)"
    by (cases "send_loop e m ex exu conns [] w")
  have "consistent w1"
    using consistent_send_loop[OF c, of e m ex exu conns "[]"] sl by simp
  then show ?thesis
    using Some sl by (simp add: broadcast_def consistent_cleanup)
qed

lemma consistent_init: "consistent init"
  by (simp add: consistent_def init_def getitem_def)

text \<open>
  Claim C6. In every state reached from the empty registry by connects, disconnects and
  broadcasts (whose only effect on the registry is the pruning of connections whose send
  failed), a document is in a user's subscription set exactly when the document's
  connections have an entry for that user. As every such operation ends in a reachable
  state, each of them changes both indexes together.
\<close>

theorem reverse_index_consistent:
  assumes "reachable w"
  shows "(\<exists>s. user_subscriptions w u = Some s \<and> d \<in> s) \<longleftrightarrow>
         (\<exists>conns. active_connections w d = Some conns \<and> u \<in> fst ` set conns)"
proof -
  have "consistent w"
    using assms
    by (induction rule: reachable.induct)
       (simp_all add: consistent_init consistent_connect consistent_disconnect consistent_broadcast)
  then have "(\<exists>s. user_subscriptions w u = Some s \<and> d \<in> s) \<longleftrightarrow>
      u \<in> fst ` set (getitem (active_connections w) d)"
    unfolding consistent_def by blast
  then show ?thesis
    by (cases "active_connections w d") (simp_all add: getitem_def)
qed

lemma send_loop_eq:
  "send_loop e m ex exu conns disc w =
     (disc @ filter (\<lambda>(uid, c). c \<notin> ex \<and> uid \<notin> exu \<and> send_fails e c) conns,
      w\<lparr>sent := sent w @ map (\<lambda>(uid, c). (c, m))
                 (filter (\<lambda>(uid, c). c \<notin> ex \<and> uid \<notin> exu \<and> \<not> send_fails e c) conns)\<rparr>)"
  by (induction e m ex exu conns disc w rule: send_loop.induct)
     (auto simp: send_text_def)

lemma disconnect_given:
  "uid \<noteq> [] \<Longrightarrow> disconnect websocket d (Some uid) w = remove_registration d uid w"
  by (simp add: disconnect_def)

lemma disconnect_other:
  "sent (disconnect websocket d user_id w) = sent w"
  "clock (disconnect websocket d user_id w) = clock w"
  "uuids (disconnect websocket d user_id w) = uuids w"
  by (auto simp: disconnect_def Let_def remove_registration_other split: option.splits)

lemma cleanup_other:
  "sent (cleanup d ds w) = sent w \<and> clock (cleanup d ds w) = clock w \<and>
   uuids (cleanup d ds w) = uuids w"
  by (induction d ds w rule: cleanup.induct) (auto simp: disconnect_other)

lemma broadcast_returns: "fst (broadcast e d m ex exu w) = Returned"
  by (simp add: broadcast_def Let_def split: option.splits prod.splits)

lemma broadcast_sent:
  "sent (snd (broadcast e d m ex exu w)) =
     sent w @ map (\<lambda>(uid, c). (c, m))
       (filter (\<lambda>(uid, c). c \<notin> ex \<and> uid \<notin> exu \<and> \<not> send_fails e c)
          (getitem (active_connections w) d))"
  by (simp add: broadcast_def send_loop_eq cleanup_other getitem_def split: option.splits)

lemma broadcast_counters:
  "clock (snd (broadcast e d m ex exu w)) = clock w"
  "uuids (snd (broadcast e d m ex exu w)) = uuids w"
  by (simp_all add: broadcast_def send_loop_eq cleanup_other split: option.splits)

lemma remove_registration_eq:
  "remove_registration d uid w =
     w\<lparr>active_connections :=
          (case active_connections w d of
             None \<Rightarrow> active_connections w
           | Some conns \<Rightarrow> (active_connections w)(d \<mapsto> AList.delete uid conns)),
        user_subscriptions :=
          (case user_subscriptions w uid of
             None \<Rightarrow> user_subscriptions w
           | Some s \<Rightarrow> if s - {d} = {} then (user_subscriptions w)(uid := None)
                       else (user_subscriptions w)(uid \<mapsto> s - {d})),
        presence :=
          (case presence w d of
             None \<Rightarrow> presence w
           | Some pres \<Rightarrow> (presence w)(d \<mapsto> AList.delete uid pres))\<rparr>"
  by (auto simp: remove_registration_def Let_def fun_upd_idem split: option.splits)

lemma delete_filter: "AList.delete k al = filter (\<lambda>(uid, x). uid \<noteq> k) al"
  by (induction al) auto


text \<open>
  Claim C5. When exactly one connection \<open>(u, c)\<close> among those a broadcast sends to raises,
  the broadcast still returns normally, every other connection outside the exclusion sets
  has received the message, and the registry differs only by the removal of \<open>u\<close> from the
  document's connections and presence records, so that \<^verbatim>\<open>get_connected_users\<close> lists the
  users it listed before except \<open>u\<close>. Registered user ids are never empty (\<open>connect\<close>
  replaces an empty id), which is the hypothesis on \<open>u\<close>.
\<close>

theorem broadcast_one_failure:
  assumes conns: "active_connections w d = Some conns"
    and one: "filter (\<lambda>(uid, c). c \<notin> exclude \<and> uid \<notin> exclude_users \<and> send_fails e c) conns
                = [(u, c)]"
    and u: "u \<noteq> []"
  shows "fst (broadcast e d msg exclude exclude_users w) = Returned \<and>
         sent (snd (broadcast e d msg exclude exclude_users w)) =
           sent w @ map (\<lambda>(uid, c'). (c', msg))
             (filter (\<lambda>(uid, c'). c' \<notin> exclude \<and> uid \<notin> exclude_users \<and> (uid, c') \<noteq> (u, c)) conns) \<and>
         active_connections (snd (broadcast e d msg exclude exclude_users w)) =
           (active_connections w)(d \<mapsto> filter (\<lambda>(uid, c'). uid \<noteq> u) conns) \<and>
         presence (snd (broadcast e d msg exclude exclude_users w)) =
           (\<lambda>d'. if d' = d then map_option (filter (\<lambda>(uid, data). uid \<noteq> u)) (presence w d)
                 else presence w d') \<and>
         user_subscriptions (snd (broadcast e d msg exclude exclude_users w)) =
           (\<lambda>u'. if u' = u
                 then (case user_subscriptions w u of
                         None \<Rightarrow> None
                       | Some s \<Rightarrow> if s - {d} = {} then None else Some (s - {d}))
                 else user_subscriptions w u') \<and>
         get_connected_users d (snd (broadcast e d msg exclude exclude_users w)) =
           map user_entry (filter (\<lambda>(uid, data). uid \<noteq> u) (getitem (presence w) d))"
proof -
  let ?P = "\<lambda>(uid, c'). c' \<notin> exclude \<and> uid \<notin> exclude_users"
  let ?w1 = "w\<lparr>sent := sent w @ map (\<lambda>(uid, c). (c, msg))
                 (filter (\<lambda>(uid, c). c \<notin> exclude \<and> uid \<notin> exclude_users \<and> \<not> send_fails e c) conns)\<rparr>"
  have fails_iff: "send_fails e (snd x) \<longleftrightarrow> x = (u, c)" if "x \<in> set conns" "?P x" for x
  proof -
    have "set (filter (\<lambda>(uid, c). c \<notin> exclude \<and> uid \<notin> exclude_users \<and> send_fails e c) conns) = {(u, c)}"
      using one by simp
    then have "(?P x \<and> send_fails e (snd x) \<and> x \<in> set conns) \<longleftrightarrow> x = (u, c)"
      by (cases x) auto
    with that show ?thesis by blast
  qed
  have filt: "filter (\<lambda>(uid, c). c \<notin> exclude \<and> uid \<notin> exclude_users \<and> \<not> send_fails e c) conns =
              filter (\<lambda>(uid, c'). c' \<notin> exclude \<and> uid \<notin> exclude_users \<and> (uid, c') \<noteq> (u, c)) conns"
    by (rule filter_cong[OF refl]) (use fails_iff in fastforce)
  have b: "broadcast e d msg exclude exclude_users w = (Returned, remove_registration d u ?w1)"
    using conns one u by (simp add: broadcast_def send_loop_eq disconnect_given)
  show ?thesis
    unfolding b using conns filt
    by (auto simp: remove_registration_eq delete_filter get_connected_users_def getitem_def
        fun_eq_iff split: option.splits)
qed

text \<open>A registered user id is never empty: \<open>connect\<close> replaces an empty id.\<close>

lemma connect_uid_nonempty: "fst (connect e websocket d user_id w) \<noteq> []"
  by (simp add: connect_def Let_def now_def split: option.splits prod.splits)

lemma ids_nonempty_connect:
  assumes "\<forall>d. [] \<notin> fst ` set (getitem (active_connections w) d)"
  shows "[] \<notin> fst ` set (getitem (active_connections (snd (connect e websocket d user_id w))) d')"
  using assms connect_uid_nonempty[of e websocket d user_id w]
  by (simp add: connect_active AList.dom_update)

lemma ids_nonempty_disconnect:
  assumes "\<forall>d. [] \<notin> fst ` set (getitem (active_connections w) d)"
  shows "[] \<notin> fst ` set (getitem (active_connections (disconnect websocket d user_id w)) d')"
proof -
  have rr: "[] \<notin> fst ` set (getitem (active_connections (remove_registration d uid v)) d')"
    if "\<forall>d. [] \<notin> fst ` set (getitem (active_connections v) d)" for uid v
    using that by (simp add: remove_registration_active keys_delete)
  have touch: "\<forall>d'. [] \<notin> fst ` set (getitem (active_connections
      (w\<lparr>active_connections := (active_connections w)(d \<mapsto> getitem (active_connections w) d)\<rparr>)) d')"
    using assms by (simp add: getitem_touch_key)
  show ?thesis
    using assms rr[OF assms] rr[OF touch] touch
    by (auto simp: disconnect_def Let_def split: option.splits simp del: fun_upd_apply)
qed

lemma ids_nonempty_cleanup:
  "\<forall>d. [] \<notin> fst ` set (getitem (active_connections w) d) \<Longrightarrow>
   \<forall>d'. [] \<notin> fst ` set (getitem (active_connections (cleanup d ds w)) d')"
proof (induction d ds w rule: cleanup.induct)
  case (1 d w)
  then show ?case by simp
next
  case (2 d uid connection rest w)
  have "\<forall>d'. [] \<notin> fst ` set (getitem (active_connections (disconnect connection d (Some uid) w)) d')"
    using ids_nonempty_disconnect[OF "2.prems"] by blast
  from "2.IH"[OF this] show ?case by simp
qed

lemma reachable_ids_nonempty:
  "reachable w \<Longrightarrow> [] \<notin> fst ` set (getitem (active_connections w) d)"
proof (induction arbitrary: d rule: reachable.induct)
  case reach_init
  show ?case by (simp add: init_def getitem_def)
next
  case (reach_connect w e websocket d' user_id)
  then show ?case using ids_nonempty_connect by blast
next
  case (reach_disconnect w websocket d' user_id)
  then show ?case using ids_nonempty_disconnect by blast
next
  case (reach_broadcast w e d' msg exclude exclude_users)
  have inv: "\<forall>d. [] \<notin> fst ` set (getitem (active_connections w) d)"
    using reach_broadcast.IH by blast
  show ?case
  proof (cases "active_connections w d'")
    case None
    then show ?thesis using inv by (simp add: broadcast_def)
  next
    case (Some conns)
    obtain disc w1 where sl: "send_loop e msg exclude exclude_users conns [] w = (disc, w1)"
      by (cases "send_loop e msg exclude exclude_users conns [] w")
    have "active_connections w1 = active_connections w"
      using send_loop_registry[of e msg exclude exclude_users conns "[]" w] sl by simp
    then have "\<forall>d. [] \<notin> fst ` set (getitem (active_connections w1) d)"
      using inv by simp
    from ids_nonempty_cleanup[OF this] Some sl show ?thesis
      by (simp add: broadcast_def)
  qed
qed
section \<open>Properties of the message router\<close>

lemma touch_other:
  "active_connections (touch e d u w) = active_connections w"
  "user_subscriptions (touch e d u w) = user_subscriptions w"
  "sent (touch e d u w) = sent w"
  "uuids (touch e d u w) = uuids w"
  by (auto simp: touch_def now_def Let_def split: option.splits)

lemma send_json_ok:
  "\<not> send_fails e c \<Longrightarrow> send_json e c m w = (Returned, w\<lparr>sent := sent w @ [(c, m)]\<rparr>)"
  by (simp add: send_json_def send_text_def)

lemma dispatch_handler:
  assumes "dict_get msg ''type'' JNull = JStr t" "t \<noteq> []" "handlers t = Some h"
  shows "dispatch e handlers websocket d u (JObj msg) w =
           h e websocket d u msg (touch e d u w)"
  using assms by (simp add: dispatch_def)

lemma handle_message_returned:
  "fst (dispatch e handlers websocket d u m w) = Returned \<Longrightarrow>
   handle_message e handlers websocket d u (Some m) w = dispatch e handlers websocket d u m w"
  by (cases "dispatch e handlers websocket d u m w") (simp add: handle_message_def)

lemma handle_content_update_missing:
  assumes "\<not> truthy (dict_get msg ''changes'' (JArr [])) \<or>
           dict_get msg ''version'' JNull = JNull"
    and "\<not> send_fails e websocket"
  shows "handle_content_update e websocket d u msg w =
           (Returned,
            w\<lparr>sent := sent w @
                 [(websocket,
                   JObj [(''type'', JStr ''error''),
                         (''message'',
                          JStr ''Missing required fields: changes and version are required'')])]\<rparr>)"
  using assms by (auto simp: handle_content_update_def Let_def send_json_ok)

lemma handle_content_update_ok:
  assumes "truthy (dict_get msg ''changes'' (JArr []))"
    and "dict_get msg ''version'' JNull \<noteq> JNull"
    and ok: "\<not> send_fails e websocket"
  shows "fst (handle_content_update e websocket d u msg w) = Returned \<and>
         sent (snd (handle_content_update e websocket d u msg w)) =
           sent w @
           map (\<lambda>(uid, c).
                  (c, JObj [(''type'', JStr ''content_update''),
                            (''user_id'', JStr u),
                            (''changes'', dict_get msg ''changes'' (JArr [])),
                            (''version'', dict_get msg ''version'' JNull),
                            (''timestamp'', JStr (utcnow e (clock w)))]))
             (filter (\<lambda>(uid, c). c \<noteq> websocket \<and> \<not> send_fails e c)
                (getitem (active_connections w) d)) @
           [(websocket,
             JObj [(''type'', JStr ''content_update_ack''),
                   (''version'', dict_get msg ''version'' JNull),
                   (''timestamp'', JStr (utcnow e (Suc (clock w))))])]"
proof -
  let ?m = "JObj [(''type'', JStr ''content_update''), (''user_id'', JStr u),
             (''changes'', dict_get msg ''changes'' (JArr [])),
             (''version'', dict_get msg ''version'' JNull),
             (''timestamp'', JStr (utcnow e (clock w)))]"
  let ?w1 = "w\<lparr>clock := Suc (clock w)\<rparr>"
  obtain w2 where b: "broadcast e d ?m {websocket} {} ?w1 = (Returned, w2)"
    using broadcast_returns by (metis prod.collapse)
  have s2: "sent w2 = sent w @ map (\<lambda>(uid, c). (c, ?m))
        (filter (\<lambda>(uid, c). c \<noteq> websocket \<and> \<not> send_fails e c)
           (getitem (active_connections w) d))"
    using broadcast_sent[of e d ?m "{websocket}" "{}" ?w1] unfolding b by simp
  have c2: "clock w2 = Suc (clock w)"
    using broadcast_counters(1)[of e d ?m "{websocket}" "{}" ?w1] unfolding b by simp
  have "handle_content_update e websocket d u msg w =
      (Returned, w2\<lparr>clock := Suc (clock w2),
                    sent := sent w2 @
                      [(websocket,
                        JObj [(''type'', JStr ''content_update_ack''),
                              (''version'', dict_get msg ''version'' JNull),
                              (''timestamp'', JStr (utcnow e (clock w2)))])]\<rparr>)"
    using assms b by (simp add: handle_content_update_def Let_def now_def send_json_ok)
  with s2 c2 show ?thesis by simp
qed

lemma handle_cursor_update_sent:
  "fst (handle_cursor_update e websocket d u msg w) = Returned \<and>
   sent (snd (handle_cursor_update e websocket d u msg w)) =
     sent w @
     map (\<lambda>(uid, c).
            (c, JObj [(''type'', JStr ''cursor_update''),
                      (''user_id'', JStr u),
                      (''position'', dict_get msg ''position'' JNull),
                      (''user_info'', dict_get msg ''user_info'' (JObj [])),
                      (''timestamp'', JStr (utcnow e (clock w)))]))
       (filter (\<lambda>(uid, c). c \<noteq> websocket \<and> \<not> send_fails e c)
          (getitem (active_connections w) d))"
  by (simp add: handle_cursor_update_def now_def broadcast_returns broadcast_sent)

lemma handle_comment_ok:
  assumes "truthy (dict_get msg ''comment'' JNull)"
    and "truthy (dict_get msg ''range'' JNull)"
  shows "fst (handle_comment e websocket d u msg w) = Returned \<and>
         uuids (snd (handle_comment e websocket d u msg w)) = Suc (uuids w) \<and>
         sent (snd (handle_comment e websocket d u msg w)) =
           sent w @
           map (\<lambda>(uid, c).
                  (c, JObj [(''type'', JStr ''comment''),
                            (''id'', JStr (''comment_'' @ uuid4_hex e (uuids w))),
                            (''user_id'', JStr u),
                            (''comment'', dict_get msg ''comment'' JNull),
                            (''range'', dict_get msg ''range'' JNull),
                            (''timestamp'', JStr (utcnow e (clock w))),
                            (''status'', JStr ''active'')]))
             (filter (\<lambda>(uid, c). \<not> send_fails e c) (getitem (active_connections w) d))"
  using assms
  by (simp add: handle_comment_def Let_def now_def uuid4_def broadcast_returns broadcast_sent
      broadcast_counters)

lemma handle_comment_missing:
  assumes "\<not> truthy (dict_get msg ''comment'' JNull) \<or>
           \<not> truthy (dict_get msg ''range'' JNull)"
    and "\<not> send_fails e websocket"
  shows "handle_comment e websocket d u msg w =
           (Returned,
            w\<lparr>sent := sent w @
                 [(websocket,
                   JObj [(''type'', JStr ''error''),
                         (''message'',
                          JStr ''Missing required fields: comment and range are required'')])]\<rparr>)"
  using assms by (auto simp: handle_comment_def Let_def send_json_ok)

text \<open>
  Claim C2, as amended. A dispatched \<^verbatim>\<open>content_update\<close> whose \<^verbatim>\<open>changes\<close> is missing or falsy
  (null, false, 0, an empty string, list or object) or whose \<^verbatim>\<open>version\<close> is missing or null
  makes the sender alone receive the error reply, nothing being broadcast; otherwise the
  update is delivered to every connection of the document whose handle is not the
  sender's (and whose send succeeds), and then the sender receives the acknowledgement
  with the same version.
\<close>

theorem content_update_dispatch:
  assumes h: "handlers ''content_update'' = Some handle_content_update"
    and t: "dict_get msg ''type'' JNull = JStr ''content_update''"
    and ok: "\<not> send_fails e websocket"
  shows "let changes = dict_get msg ''changes'' (JArr []);
             version = dict_get msg ''version'' JNull;
             w0 = touch e d u w;
             r = handle_message e handlers websocket d u (Some (JObj msg)) w
         in if \<not> truthy changes \<or> version = JNull
            then r = (Returned,
                      w0\<lparr>sent := sent w @
                         [(websocket,
                           JObj [(''type'', JStr ''error''),
                                 (''message'',
                                  JStr ''Missing required fields: changes and version are required'')])]\<rparr>)
            else fst r = Returned \<and>
                 sent (snd r) =
                   sent w @
                   map (\<lambda>(uid, c).
                          (c, JObj [(''type'', JStr ''content_update''),
                                    (''user_id'', JStr u),
                                    (''changes'', changes),
                                    (''version'', version),
                                    (''timestamp'', JStr (utcnow e (clock w0)))]))
                     (filter (\<lambda>(uid, c). c \<noteq> websocket \<and> \<not> send_fails e c)
                        (getitem (active_connections w) d)) @
                   [(websocket,
                     JObj [(''type'', JStr ''content_update_ack''),
                           (''version'', version),
                           (''timestamp'', JStr (utcnow e (Suc (clock w0))))])]"
proof -
  let ?w0 = "touch e d u w"
  have d: "dispatch e handlers websocket d u (JObj msg) w =
           handle_content_update e websocket d u msg ?w0"
    using dispatch_handler[where t = "''content_update''" and handlers = handlers
        and msg = msg] t h by simp
  show ?thesis
  proof (cases "\<not> truthy (dict_get msg ''changes'' (JArr [])) \<or>
                dict_get msg ''version'' JNull = JNull")
    case True
    then show ?thesis
      using handle_content_update_missing[OF True ok, of d u ?w0] d
      by (simp add: Let_def handle_message_def touch_other)
  next
    case False
    then have tr: "truthy (dict_get msg ''changes'' (JArr []))"
      and ver: "dict_get msg ''version'' JNull \<noteq> JNull" by simp_all
    show ?thesis
      using handle_content_update_ok[OF tr ver ok, of d u ?w0] False
        handle_message_returned[of e handlers websocket d u "JObj msg" w]
      by (simp add: d Let_def touch_other)
  qed
qed

lemma send_json_fails:
  "send_fails e c \<Longrightarrow> send_json e c m w = (Raised SendFailed, w)"
  by (simp add: send_json_def send_text_def)

lemma handle_content_update_sent:
  "sent (snd (handle_content_update e websocket d u msg w)) =
     sent w @
     (if \<not> truthy (dict_get msg ''changes'' (JArr [])) \<or> dict_get msg ''version'' JNull = JNull
      then []
      else map (\<lambda>(uid, c).
                  (c, JObj [(''type'', JStr ''content_update''),
                            (''user_id'', JStr u),
                            (''changes'', dict_get msg ''changes'' (JArr [])),
                            (''version'', dict_get msg ''version'' JNull),
                            (''timestamp'', JStr (utcnow e (clock w)))]))
             (filter (\<lambda>(uid, c). c \<noteq> websocket \<and> \<not> send_fails e c)
                (getitem (active_connections w) d))) @
     (if send_fails e websocket then []
      else [(websocket,
             if \<not> truthy (dict_get msg ''changes'' (JArr [])) \<or>
                dict_get msg ''version'' JNull = JNull
             then JObj [(''type'', JStr ''error''),
                        (''message'',
                         JStr ''Missing required fields: changes and version are required'')]
             else JObj [(''type'', JStr ''content_update_ack''),
                        (''version'', dict_get msg ''version'' JNull),
                        (''timestamp'', JStr (utcnow e (Suc (clock w))))])]) \<and>
   (fst (handle_content_update e websocket d u msg w) = Returned \<longleftrightarrow>
      \<not> send_fails e websocket)"
proof (cases "\<not> truthy (dict_get msg ''changes'' (JArr [])) \<or>
              dict_get msg ''version'' JNull = JNull")
  case True
  show ?thesis
  proof (cases "send_fails e websocket")
    case f: True
    with True show ?thesis
      by (auto simp: handle_content_update_def Let_def send_json_fails)
  next
    case f: False
    from handle_content_update_missing[OF True f, of d u w] True f show ?thesis by simp
  qed
next
  case False
  then have tr: "truthy (dict_get msg ''changes'' (JArr []))"
    and ver: "dict_get msg ''version'' JNull \<noteq> JNull" by simp_all
  show ?thesis
  proof (cases "send_fails e websocket")
    case f: False
    from handle_content_update_ok[OF tr ver f, of d u w] False f show ?thesis by simp
  next
    case f: True
    let ?m = "JObj [(''type'', JStr ''content_update''), (''user_id'', JStr u),
               (''changes'', dict_get msg ''changes'' (JArr [])),
               (''version'', dict_get msg ''version'' JNull),
               (''timestamp'', JStr (utcnow e (clock w)))]"
    let ?w1 = "w\<lparr>clock := Suc (clock w)\<rparr>"
    obtain w2 where b: "broadcast e d ?m {websocket} {} ?w1 = (Returned, w2)"
      using broadcast_returns by (metis prod.collapse)
    have s2: "sent w2 = sent w @ map (\<lambda>(uid, c). (c, ?m))
          (filter (\<lambda>(uid, c). c \<noteq> websocket \<and> \<not> send_fails e c)
             (getitem (active_connections w) d))"
      using broadcast_sent[of e d ?m "{websocket}" "{}" ?w1] unfolding b by simp
    have "handle_content_update e websocket d u msg w =
        (Raised SendFailed, w2\<lparr>clock := Suc (clock w2)\<rparr>)"
      using tr ver f b by (simp add: handle_content_update_def Let_def now_def send_json_fails)
    with s2 False f show ?thesis by simp
  qed
qed

lemma handle_message_sent:
  assumes "fst (dispatch e handlers websocket d u m w) = Returned \<longleftrightarrow> \<not> send_fails e websocket"
  shows "sent (snd (handle_message e handlers websocket d u (Some m) w)) =
           sent (snd (dispatch e handlers websocket d u m w))"
proof (cases "dispatch e handlers websocket d u m w")
  case (Pair out w')
  show ?thesis
  proof (cases out)
    case Returned
    with Pair show ?thesis by (simp add: handle_message_def)
  next
    case (Raised x)
    with Pair assms have "send_fails e websocket" by simp
    with Pair Raised show ?thesis by (simp add: handle_message_def send_json_fails)
  qed
qed

text \<open>
  Claim C8, as amended. A dispatched \<^verbatim>\<open>comment\<close> whose \<^verbatim>\<open>comment\<close> and \<^verbatim>\<open>range\<close> are both
  present and truthy draws a new id from the uuid generator and a timestamp from the
  clock, and the comment frame is delivered to every connection of the document, the
  sender's included. In contrast, the frames that a \<^verbatim>\<open>cursor_update\<close> and a
  \<^verbatim>\<open>content_update\<close> broadcast go to the connections whose handle is not the sender's;
  what the sender's handle gets from a \<^verbatim>\<open>content_update\<close> is its own reply, the
  acknowledgement or the error, never the broadcast frame.
\<close>

theorem comment_broadcast_includes_sender:
  assumes hc: "handlers ''comment'' = Some handle_comment"
    and hu: "handlers ''cursor_update'' = Some handle_cursor_update"
    and hv: "handlers ''content_update'' = Some handle_content_update"
    and tc: "dict_get msg ''type'' JNull = JStr ''comment''"
    and tu: "dict_get msg' ''type'' JNull = JStr ''cursor_update''"
    and tv: "dict_get msg'' ''type'' JNull = JStr ''content_update''"
    and c: "truthy (dict_get msg ''comment'' JNull)"
    and r: "truthy (dict_get msg ''range'' JNull)"
  shows "(let w0 = touch e d u w;
              r = handle_message e handlers websocket d u (Some (JObj msg)) w
          in fst r = Returned \<and> uuids (snd r) = Suc (uuids w) \<and>
             sent (snd r) =
               sent w @
               map (\<lambda>(uid, c).
                      (c, JObj [(''type'', JStr ''comment''),
                                (''id'', JStr (''comment_'' @ uuid4_hex e (uuids w))),
                                (''user_id'', JStr u),
                                (''comment'', dict_get msg ''comment'' JNull),
                                (''range'', dict_get msg ''range'' JNull),
                                (''timestamp'', JStr (utcnow e (clock w0))),
                                (''status'', JStr ''active'')]))
                 (filter (\<lambda>(uid, c). \<not> send_fails e c) (getitem (active_connections w) d))) \<and>
         (let w0 = touch e d u w;
              r = handle_message e handlers websocket d u (Some (JObj msg')) w
          in fst r = Returned \<and>
             sent (snd r) =
               sent w @
               map (\<lambda>(uid, c).
                      (c, JObj [(''type'', JStr ''cursor_update''),
                                (''user_id'', JStr u),
                                (''position'', dict_get msg' ''position'' JNull),
                                (''user_info'', dict_get msg' ''user_info'' (JObj [])),
                                (''timestamp'', JStr (utcnow e (clock w0)))]))
                 (filter (\<lambda>(uid, c). c \<noteq> websocket \<and> \<not> send_fails e c)
                    (getitem (active_connections w) d))) \<and>
         (let w0 = touch e d u w;
              changes = dict_get msg'' ''changes'' (JArr []);
              version = dict_get msg'' ''version'' JNull;
              r = handle_message e handlers websocket d u (Some (JObj msg'')) w
          in sent (snd r) =
               sent w @
               (if \<not> truthy changes \<or> version = JNull then []
                else map (\<lambda>(uid, c).
                            (c, JObj [(''type'', JStr ''content_update''),
                                      (''user_id'', JStr u),
                                      (''changes'', changes),
                                      (''version'', version),
                                      (''timestamp'', JStr (utcnow e (clock w0)))]))
                       (filter (\<lambda>(uid, c). c \<noteq> websocket \<and> \<not> send_fails e c)
                          (getitem (active_connections w) d))) @
               (if send_fails e websocket then []
                else [(websocket,
                       if \<not> truthy changes \<or> version = JNull
                       then JObj [(''type'', JStr ''error''),
                                  (''message'',
                                   JStr ''Missing required fields: changes and version are required'')]
                       else JObj [(''type'', JStr ''content_update_ack''),
                                  (''version'', version),
                                  (''timestamp'', JStr (utcnow e (Suc (clock w0))))])]))"
proof -
  let ?w0 = "touch e d u w"
  have d1: "dispatch e handlers websocket d u (JObj msg) w =
            handle_comment e websocket d u msg ?w0"
    using dispatch_handler[where t = "''comment''" and handlers = handlers
        and msg = msg] tc hc by simp
  have d2: "dispatch e handlers websocket d u (JObj msg') w =
            handle_cursor_update e websocket d u msg' ?w0"
    using dispatch_handler[where t = "''cursor_update''" and handlers = handlers
        and msg = msg'] tu hu by simp
  have d3: "dispatch e handlers websocket d u (JObj msg'') w =
            handle_content_update e websocket d u msg'' ?w0"
    using dispatch_handler[where t = "''content_update''" and handlers = handlers
        and msg = msg''] tv hv by simp
  have first: "fst (handle_message e handlers websocket d u (Some (JObj msg)) w) = Returned \<and>
      uuids (snd (handle_message e handlers websocket d u (Some (JObj msg)) w)) = Suc (uuids w) \<and>
      sent (snd (handle_message e handlers websocket d u (Some (JObj msg)) w)) =
        sent w @
        map (\<lambda>(uid, c).
               (c, JObj [(''type'', JStr ''comment''),
                         (''id'', JStr (''comment_'' @ uuid4_hex e (uuids w))),
                         (''user_id'', JStr u),
                         (''comment'', dict_get msg ''comment'' JNull),
                         (''range'', dict_get msg ''range'' JNull),
                         (''timestamp'', JStr (utcnow e (clock ?w0))),
                         (''status'', JStr ''active'')]))
          (filter (\<lambda>(uid, c). \<not> send_fails e c) (getitem (active_connections w) d))"
    using handle_comment_ok[OF c r, of e websocket d u ?w0]
      handle_message_returned[of e handlers websocket d u "JObj msg" w]
    by (simp add: d1 touch_other)
  have second: "fst (handle_message e handlers websocket d u (Some (JObj msg')) w) = Returned \<and>
      sent (snd (handle_message e handlers websocket d u (Some (JObj msg')) w)) =
        sent w @
        map (\<lambda>(uid, c).
               (c, JObj [(''type'', JStr ''cursor_update''),
                         (''user_id'', JStr u),
                         (''position'', dict_get msg' ''position'' JNull),
                         (''user_info'', dict_get msg' ''user_info'' (JObj [])),
                         (''timestamp'', JStr (utcnow e (clock ?w0)))]))
          (filter (\<lambda>(uid, c). c \<noteq> websocket \<and> \<not> send_fails e c)
             (getitem (active_connections w) d))"
    using handle_cursor_update_sent[of e websocket d u msg' ?w0]
      handle_message_returned[of e handlers websocket d u "JObj msg'" w]
    by (simp add: d2 touch_other)
  have third: "sent (snd (handle_message e handlers websocket d u (Some (JObj msg'')) w)) =
      sent (snd (handle_content_update e websocket d u msg'' ?w0))"
    using handle_message_sent[of e handlers websocket d u "JObj msg''" w]
      handle_content_update_sent[of e websocket d u msg'' ?w0]
    by (simp add: d3)
  show ?thesis
    unfolding Let_def third
    using first second handle_content_update_sent[of e websocket d u msg'' ?w0]
    by (simp add: Let_def touch_other)
qed

text \<open>
  Claim C9, as amended. For a sender whose socket accepts the send, a frame that parses
  to a map whose \<^verbatim>\<open>type\<close> is truthy and hashable (a non-empty string, a non-zero number or
  true) and has no registered handler makes the sender alone receive
  \<^verbatim>\<open>{"error": "Unknown message type: <type>"}\<close>; nothing else changes in the registry, the
  presence records or the clock, and the call returns normally, so the caller goes on to
  the next frame.
\<close>

theorem unknown_type_reply:
  assumes ty: "dict_get msg ''type'' JNull = t"
    and tr: "truthy t"
    and hk: "hash_key t = Some k"
    and nh: "(case k of KStr s \<Rightarrow> handlers s | _ \<Rightarrow> None) = None"
    and ok: "\<not> send_fails e websocket"
  shows "handle_message e handlers websocket d u (Some (JObj msg)) w =
           (Returned,
            w\<lparr>sent := sent w @
                 [(websocket,
                   JObj [(''error'', JStr (''Unknown message type: '' @ str_key k))])]\<rparr>)"
  using assms by (simp add: handle_message_def dispatch_def send_json_ok)
section \<open>The claims at concrete sessions\<close>

lemma str_nat_small: "n < 10 \<Longrightarrow> str_nat n = [digit_char n]"
  by (simp add: str_nat.simps)

lemma two_users_eq:
  "two_users =
     \<lparr>active_connections = [''d1'' \<mapsto> [(''alice'', 1), (''bob'', 2)]],
      user_subscriptions = [''alice'' \<mapsto> {''d1''}, ''bob'' \<mapsto> {''d1''}],
      presence = [''d1'' \<mapsto>
         [(''alice'', [(''last_seen'', JStr ''T0''), (''status'', JStr ''online'')]),
          (''bob'', [(''last_seen'', JStr ''T1''), (''status'', JStr ''online'')])]],
      sent = [], clock = 2, uuids = 0\<rparr>"
  by (simp add: two_users_def connect_def Let_def init_def now_def example_env_def getitem_def
      str_nat_small digit_char_def numeral_2_eq_2)

lemma three_users_eq:
  "three_users =
     \<lparr>active_connections = [''d1'' \<mapsto> [(''alice'', 1), (''bob'', 2), (''carol'', 3)]],
      user_subscriptions = [''alice'' \<mapsto> {''d1''}, ''bob'' \<mapsto> {''d1''}, ''carol'' \<mapsto> {''d1''}],
      presence = [''d1'' \<mapsto>
         [(''alice'', [(''last_seen'', JStr ''T0''), (''status'', JStr ''online'')]),
          (''bob'', [(''last_seen'', JStr ''T1''), (''status'', JStr ''online'')]),
          (''carol'', [(''last_seen'', JStr ''T2''), (''status'', JStr ''online'')])]],
      sent = [], clock = 3, uuids = 0\<rparr>"
  by (simp add: three_users_def two_users_eq connect_def Let_def now_def example_env_def getitem_def
      str_nat_small digit_char_def numeral_3_eq_3)

lemmas example_simps =
  two_users_eq three_users_eq example_env_def example_handlers_def register_handlers_def
  handle_message_def dispatch_def dict_get_def touch_def now_def uuid4_def Let_def
  send_json_def send_text_def getitem_def str_nat_small digit_char_def

theorem reverse_index_consistent_witness:
  "reachable two_users \<and>
   (\<exists>s. user_subscriptions two_users ''alice'' = Some s \<and> ''d1'' \<in> s) \<and>
   \<not> (\<exists>s. user_subscriptions two_users ''carol'' = Some s \<and> ''d1'' \<in> s)"
proof -
  have r: "reachable two_users"
    unfolding two_users_def by (intro reach_connect reach_init)
  show ?thesis
    using r reverse_index_consistent[OF r, of "''alice''" "''d1''"]
      reverse_index_consistent[OF r, of "''carol''" "''d1''"]
    by (simp add: two_users_eq)
qed



theorem broadcast_one_failure_witness:
  "sent (snd (broadcast example_env ''d1'' (JStr ''hi'') {} {} three_users)) =
     [(1, JStr ''hi''), (2, JStr ''hi'')] \<and>
   active_connections (snd (broadcast example_env ''d1'' (JStr ''hi'') {} {} three_users)) =
     [''d1'' \<mapsto> [(''alice'', 1), (''bob'', 2)]] \<and>
   get_connected_users ''d1'' (snd (broadcast example_env ''d1'' (JStr ''hi'') {} {} three_users)) =
     get_connected_users ''d1'' two_users"
  using broadcast_one_failure[of three_users "''d1''"
      "[(''alice'', 1), (''bob'', 2), (''carol'', 3)]" "{}" "{}" example_env "''carol''" 3
      "JStr ''hi''"]
  by (simp add: three_users_eq two_users_eq example_env_def get_connected_users_def getitem_def)

theorem content_update_dispatch_witness:
  "sent (snd (handle_message example_env example_handlers 1 ''d1'' ''alice''
            (Some (JObj [(''type'', JStr ''content_update''),
                         (''changes'', JObj [(''insert'', JStr ''x'')]),
                         (''version'', JInt 5)])) two_users)) =
     [(2, JObj [(''type'', JStr ''content_update''), (''user_id'', JStr ''alice''),
                (''changes'', JObj [(''insert'', JStr ''x'')]), (''version'', JInt 5),
                (''timestamp'', JStr ''T3'')]),
      (1, JObj [(''type'', JStr ''content_update_ack''), (''version'', JInt 5),
                (''timestamp'', JStr ''T4'')])] \<and>
   sent (snd (handle_message example_env example_handlers 1 ''d1'' ''alice''
            (Some (JObj [(''type'', JStr ''content_update''),
                         (''changes'', JObj [(''insert'', JStr ''x'')])])) two_users)) =
     [(1, JObj [(''type'', JStr ''error''),
                (''message'',
                 JStr ''Missing required fields: changes and version are required'')])]"
  using content_update_dispatch[of example_handlers
      "[(''type'', JStr ''content_update''), (''changes'', JObj [(''insert'', JStr ''x'')]),
        (''version'', JInt 5)]" example_env 1 "''d1''" "''alice''" two_users]
    content_update_dispatch[of example_handlers
      "[(''type'', JStr ''content_update''), (''changes'', JObj [(''insert'', JStr ''x'')])]"
      example_env 1 "''d1''" "''alice''" two_users]
  by (simp add: two_users_eq example_env_def example_handlers_def register_handlers_def
      dict_get_def touch_def now_def Let_def getitem_def str_nat_small digit_char_def)

text \<open>
  Claim C2 as stated fails: both fields are present, \<^verbatim>\<open>changes\<close> is the empty list, and the
  sender gets the error reply while nothing is broadcast to the other user.
\<close>

theorem content_update_empty_changes_counterexample:
  "map_of [(''type'', JStr ''content_update''), (''changes'', JArr []), (''version'', JInt 5)]
     ''changes'' = Some (JArr []) \<and>
   map_of [(''type'', JStr ''content_update''), (''changes'', JArr []), (''version'', JInt 5)]
     ''version'' = Some (JInt 5) \<and>
   sent (snd (handle_message example_env example_handlers 1 ''d1'' ''alice''
            (Some (JObj [(''type'', JStr ''content_update''), (''changes'', JArr []),
                         (''version'', JInt 5)])) two_users)) =
     [(1, JObj [(''type'', JStr ''error''),
                (''message'',
                 JStr ''Missing required fields: changes and version are required'')])]"
  by (simp add: example_simps handle_content_update_def)

theorem comment_broadcast_includes_sender_witness:
  "sent (snd (handle_message example_env example_handlers 1 ''d1'' ''alice''
            (Some (JObj [(''type'', JStr ''comment''), (''comment'', JStr ''nice''),
                         (''range'', JObj [(''start'', JInt 1)])])) two_users)) =
     [(1, JObj [(''type'', JStr ''comment''), (''id'', JStr ''comment_u0''),
                (''user_id'', JStr ''alice''), (''comment'', JStr ''nice''),
                (''range'', JObj [(''start'', JInt 1)]), (''timestamp'', JStr ''T3''),
                (''status'', JStr ''active'')]),
      (2, JObj [(''type'', JStr ''comment''), (''id'', JStr ''comment_u0''),
                (''user_id'', JStr ''alice''), (''comment'', JStr ''nice''),
                (''range'', JObj [(''start'', JInt 1)]), (''timestamp'', JStr ''T3''),
                (''status'', JStr ''active'')])] \<and>
   sent (snd (handle_message example_env example_handlers 1 ''d1'' ''alice''
            (Some (JObj [(''type'', JStr ''cursor_update''),
                         (''position'', JObj [(''x'', JInt 1), (''y'', JInt 2)])])) two_users)) =
     [(2, JObj [(''type'', JStr ''cursor_update''), (''user_id'', JStr ''alice''),
                (''position'', JObj [(''x'', JInt 1), (''y'', JInt 2)]),
                (''user_info'', JObj []), (''timestamp'', JStr ''T3'')])] \<and>
   sent (snd (handle_message example_env example_handlers 1 ''d1'' ''alice''
            (Some (JObj [(''type'', JStr ''content_update''),
                         (''changes'', JObj [(''insert'', JStr ''x'')]),
                         (''version'', JInt 7)])) two_users)) =
     [(2, JObj [(''type'', JStr ''content_update''), (''user_id'', JStr ''alice''),
                (''changes'', JObj [(''insert'', JStr ''x'')]), (''version'', JInt 7),
                (''timestamp'', JStr ''T3'')]),
      (1, JObj [(''type'', JStr ''content_update_ack''), (''version'', JInt 7),
                (''timestamp'', JStr ''T4'')])]"
  using comment_broadcast_includes_sender[where handlers = example_handlers
      and msg = "[(''type'', JStr ''comment''), (''comment'', JStr ''nice''),
                  (''range'', JObj [(''start'', JInt 1)])]"
      and msg' = "[(''type'', JStr ''cursor_update''),
                   (''position'', JObj [(''x'', JInt 1), (''y'', JInt 2)])]"
      and msg'' = "[(''type'', JStr ''content_update''),
                    (''changes'', JObj [(''insert'', JStr ''x'')]), (''version'', JInt 7)]"
      and e = example_env and d = "''d1''" and u = "''alice''" and w = two_users
      and websocket = 1]
  by (simp add: two_users_eq example_env_def example_handlers_def register_handlers_def
      dict_get_def touch_def now_def Let_def getitem_def str_nat_small digit_char_def)

text \<open>
  Claim C8 as stated fails: both fields are present, the comment is the empty string, and
  the sender gets the error reply while nothing is broadcast.
\<close>

theorem comment_empty_text_counterexample:
  "map_of [(''type'', JStr ''comment''), (''comment'', JStr ''''),
           (''range'', JObj [(''start'', JInt 1)])] ''comment'' = Some (JStr '''') \<and>
   map_of [(''type'', JStr ''comment''), (''comment'', JStr ''''),
           (''range'', JObj [(''start'', JInt 1)])] ''range'' = Some (JObj [(''start'', JInt 1)]) \<and>
   sent (snd (handle_message example_env example_handlers 1 ''d1'' ''alice''
            (Some (JObj [(''type'', JStr ''comment''), (''comment'', JStr ''''),
                         (''range'', JObj [(''start'', JInt 1)])])) two_users)) =
     [(1, JObj [(''type'', JStr ''error''),
                (''message'',
                 JStr ''Missing required fields: comment and range are required'')])]"
  by (simp add: example_simps handle_comment_def)

theorem unknown_type_reply_witness:
  "handle_message example_env example_handlers 1 ''d1'' ''alice''
     (Some (JObj [(''type'', JStr ''bogus'')])) two_users =
   (Returned, two_users\<lparr>sent := [(1, JObj [(''error'', JStr ''Unknown message type: bogus'')])]\<rparr>)"
  using unknown_type_reply[of "[(''type'', JStr ''bogus'')]" "JStr ''bogus''" "KStr ''bogus''"
      example_handlers example_env 1 "''d1''" "''alice''" two_users]
  by (simp add: two_users_eq example_env_def example_handlers_def register_handlers_def
      dict_get_def)

text \<open>
  Claim C9 as stated fails: the type field is the empty string, which has no handler, and
  the reply is that the type is required.
\<close>

theorem empty_type_counterexample:
  "map_of [(''type'', JStr '''')] ''type'' = Some (JStr '''') \<and>
   example_handlers '''' = None \<and>
   handle_message example_env example_handlers 1 ''d1'' ''alice''
     (Some (JObj [(''type'', JStr '''')])) two_users =
   (Returned, two_users\<lparr>sent := [(1, JObj [(''error'', JStr ''Message type is required'')])]\<rparr>)"
  by (simp add: example_simps)

section \<open>Properties of the version list\<close>

lemma stored_versions_step:
  "stored_versions d' (snd (create_document_version d c a m fresh s)) =
     (if d' = d then stored_versions d s @ [version_of_call (d, c, a, m, fresh)]
      else stored_versions d' s)"
  by (auto simp: stored_versions_def create_document_version_def add_version_def Let_def
      new_collaboration_def version_of_call_def split: option.splits)

lemma service_run_appends:
  "stored_versions d (service_run calls s) =
     stored_versions d s @ map version_of_call (filter (\<lambda>call. fst call = d) calls)"
proof (induction calls arbitrary: s)
  case Nil
  then show ?case by simp
next
  case (Cons call calls)
  obtain d' c a m fresh where call: "call = (d', c, a, m, fresh)"
    by (cases call) auto
  show ?case
    using Cons.IH[of "snd (create_document_version d' c a m fresh s)"]
    by (simp add: call stored_versions_step)
qed

lemma get_document_versions_stored:
  "get_document_versions d s = map version_summary (stored_versions d s)"
  by (simp add: get_document_versions_def stored_versions_def split: option.splits)

text \<open>
  Claim C1, as amended. The version store gives a version no sequence number. After any
  sequence of calls of \<^verbatim>\<open>create_document_version\<close>, \<open>k\<close> of them for a document and the
  others for any document, the document's list of versions is the list it was before
  followed by the \<open>k\<close> new versions in the order of their calls: the \<open>i\<close>-th of them stands
  at the \<open>i\<close>-th place after the versions present before, which are all kept, unchanged and
  in their order. \<^verbatim>\<open>get_document_versions\<close> lists the versions in this order, each with its
  id, timestamp, author, message and content length.
\<close>

theorem versions_appended_in_order:
  "stored_versions d (service_run calls collaboration_sessions) =
     stored_versions d collaboration_sessions @
     map version_of_call (filter (\<lambda>call. fst call = d) calls) \<and>
   length (stored_versions d (service_run calls collaboration_sessions)) =
     length (stored_versions d collaboration_sessions) +
     length (filter (\<lambda>call. fst call = d) calls) \<and>
   get_document_versions d (service_run calls collaboration_sessions) =
     get_document_versions d collaboration_sessions @
     map (\<lambda>call. version_summary (version_of_call call)) (filter (\<lambda>call. fst call = d) calls)"
  by (simp add: service_run_appends get_document_versions_stored comp_def)


section \<open>Lengths of runs in \<^verbatim>\<open>find_longest_match\<close>\<close>

lemma longest_inner_bounded:
  assumes "j2len_bounded i j2len"
    and "j2len_bounded (Suc i) newj2len"
  shows "j2len_bounded (Suc i) (fst (longest_inner js blo bhi i j2len (newj2len, best)))"
  using assms(2)
proof (induction js arbitrary: newj2len best)
  case Nil
  then show ?case by simp
next
  case (Cons j js)
  obtain bi bj bs where b: "best = (bi, bj, bs)" by (cases best) auto
  define k where "k = (if j = 0 then 0 else case j2len (j - 1) of None \<Rightarrow> 0 | Some v \<Rightarrow> v) + 1"
  have k: "k \<le> Suc i \<and> k \<le> Suc j"
    using assms(1) unfolding k_def j2len_bounded_def
    by (cases "j2len (j - 1)") (auto, fastforce+)
  define best' where
    "best' = (if bs < k then (Suc i - k, Suc j - k, k) else (bi, bj, bs))"
  have step: "longest_inner (j # js) blo bhi i j2len (newj2len, best) =
      (if j < blo then longest_inner js blo bhi i j2len (newj2len, best)
       else if bhi \<le> j then (newj2len, best)
       else longest_inner js blo bhi i j2len (newj2len(j \<mapsto> k), best'))"
    by (simp add: b Let_def k_def best'_def)
  have upd: "j2len_bounded (Suc i) (newj2len(j \<mapsto> k))"
    using Cons.prems k by (simp add: j2len_bounded_def)
  consider "j < blo" | "\<not> j < blo" "bhi \<le> j" | "\<not> j < blo" "\<not> bhi \<le> j" by blast
  then show ?case
  proof cases
    case 1
    then show ?thesis unfolding step using Cons.IH[OF Cons.prems, of best] by simp
  next
    case 2
    then show ?thesis unfolding step using Cons.prems by simp
  next
    case 3
    then have "longest_inner (j # js) blo bhi i j2len (newj2len, best) =
        longest_inner js blo bhi i j2len (newj2len(j \<mapsto> k), best')"
      unfolding step by (simp only: if_False)
    then show ?thesis using Cons.IH[OF upd, of best'] by (simp only:)
  qed
qed

lemma run_length_bounded:
  assumes "j2len_bounded i j2len"
  shows "(if j = 0 then 0 else case j2len (j - 1) of None \<Rightarrow> 0 | Some v \<Rightarrow> v) + 1 \<le> Suc i \<and>
         (if j = 0 then 0 else case j2len (j - 1) of None \<Rightarrow> 0 | Some v \<Rightarrow> v) + 1 \<le> Suc j"
  using assms unfolding j2len_bounded_def
  by (cases "j2len (j - 1)") (auto, fastforce+)

lemma longest_rows_bounded:
  "j2len_bounded (alo + n)
     (fst (fold (\<lambda>i (j2len, best).
                  longest_inner (b2j b (a ! i)) blo bhi i j2len (Map.empty, best))
             [alo..<alo + n] (Map.empty, (alo, blo, 0))))"
proof (induction n)
  case 0
  show ?case by (simp add: j2len_bounded_def)
next
  case (Suc n)
  let ?f = "\<lambda>i (j2len, best).
              longest_inner (b2j b (a ! i)) blo bhi i j2len (Map.empty, best)"
  obtain j2len best where st: "fold ?f [alo..<alo + n] (Map.empty, (alo, blo, 0)) = (j2len, best)"
    by (cases "fold ?f [alo..<alo + n] (Map.empty, (alo, blo, 0))") auto
  from Suc st have bounded: "j2len_bounded (alo + n) j2len" by simp
  have empty: "j2len_bounded (Suc (alo + n)) Map.empty" by (simp add: j2len_bounded_def)
  have "fold ?f [alo..<alo + Suc n] (Map.empty, (alo, blo, 0)) =
        longest_inner (b2j b (a ! (alo + n))) blo bhi (alo + n) j2len (Map.empty, best)"
    by (simp add: st)
  with longest_inner_bounded[OF bounded empty] show ?case by simp
qed

text \<open>
  So the length \<open>k\<close> that \<open>longest_inner\<close> computes at row \<open>i\<close> and column \<open>j\<close> is at most
  \<open>i + 1\<close> and \<open>j + 1\<close>, and the differences \<open>Suc i - k\<close> and \<open>Suc j - k\<close> are those of the
  integers.
\<close>

section \<open>A sequence compared with itself\<close>

lemma np_run_step:
  assumes prev: "prev_row_ok a i j2len"
    and np: "\<not> popular a (a ! i)" and eq: "a ! j = a ! i"
  shows "np_run a ((if j = 0 then 0 else case j2len (j - 1) of None \<Rightarrow> 0 | Some v \<Rightarrow> v) + 1)
           (min i j)"
proof (cases "j = 0 \<or> j2len (j - 1) = None")
  case True
  then have "(if j = 0 then 0 else case j2len (j - 1) of None \<Rightarrow> 0 | Some v \<Rightarrow> v) + 1 = 1"
    by auto
  moreover have "np_run a 1 (min i j)"
    using np eq by (auto simp: np_run_def min_def)
  ultimately show ?thesis by simp
next
  case False
  then obtain v where j: "j \<noteq> 0" and v: "j2len (j - 1) = Some v" by auto
  from prev v have i: "1 \<le> i" and r: "np_run a v (min (i - 1) (j - 1))"
    by (auto simp: prev_row_ok_def)
  have m: "min (i - 1) (j - 1) = min i j - 1" using i j by (auto simp: min_def)
  have m1: "1 \<le> min i j" using i j by simp
  have "np_run a (v + 1) (min i j)"
    unfolding np_run_def
  proof (intro conjI allI impI)
    show "v + 1 \<le> Suc (min i j)" using r m m1 by (simp add: np_run_def)
    fix t assume t: "t < v + 1"
    show "\<not> popular a (a ! (min i j - t))"
    proof (cases t)
      case 0
      then show ?thesis using np eq by (auto simp: min_def)
    next
      case (Suc t')
      with t have "t' < v" by simp
      with r have "\<not> popular a (a ! (min (i - 1) (j - 1) - t'))"
        by (simp add: np_run_def)
      then show ?thesis using Suc m by simp
    qed
  qed
  with j v show ?thesis by simp
qed

lemma np_run_diag_exact:
  assumes prev: "prev_row_ok a i j2len"
    and r: "np_run a k' i"
  shows "k' \<le> (if i = 0 then 0 else case j2len (i - 1) of None \<Rightarrow> 0 | Some v \<Rightarrow> v) + 1"
proof (cases "k' \<le> 1")
  case True
  then show ?thesis by simp
next
  case False
  then have k2: "2 \<le> k'" by simp
  with r have i: "1 \<le> i" by (simp add: np_run_def)
  from r k2 have "\<not> popular a (a ! (i - 1))"
    by (simp add: np_run_def)
  with prev i obtain kd where kd: "j2len (i - 1) = Some kd"
    and ex: "\<forall>k. np_run a k (i - 1) \<longrightarrow> k \<le> kd"
    by (auto simp: prev_row_ok_def)
  have "np_run a (k' - 1) (i - 1)"
    unfolding np_run_def
  proof (intro conjI allI impI)
    show "k' - 1 \<le> Suc (i - 1)" using r i by (auto simp: np_run_def)
    fix t assume "t < k' - 1"
    then have "Suc t < k'" by simp
    with r have "\<not> popular a (a ! (i - Suc t))" by (simp add: np_run_def)
    then show "\<not> popular a (a ! (i - 1 - t))" by simp
  qed
  with ex have "k' - 1 \<le> kd" by blast
  with kd i show ?thesis by simp
qed

lemma longest_inner_diagonal:
  assumes prev: "prev_row_ok a i j2len"
    and np: "\<not> popular a (a ! i)"
    and js: "sorted_wrt (<) js" "\<forall>j\<in>set js. j < n \<and> a ! j = a ! i"
    and st: "cell_ok a i diag st"
    and pos: "(i \<in> set js \<and> \<not> diag) \<or> (diag \<and> (\<forall>j\<in>set js. i < j))"
  shows "cell_ok a i True (longest_inner js 0 n i j2len st)"
  using js st pos
proof (induction js arbitrary: st diag)
  case Nil
  then show ?case by (cases st) auto
next
  case (Cons j js)
  obtain newj2len bi bj bs where s: "st = (newj2len, bi, bj, bs)"
    by (cases st) auto
  define k where "k = (if j = 0 then 0 else case j2len (j - 1) of None \<Rightarrow> 0 | Some v \<Rightarrow> v) + 1"
  define st' where
    "st' = (newj2len(j \<mapsto> k), if bs < k then (Suc i - k, Suc j - k, k) else (bi, bj, bs))"
  from Cons.prems(2) have jn: "j < n" and je: "a ! j = a ! i" by simp_all
  have unfold: "longest_inner (j # js) 0 n i j2len st = longest_inner js 0 n i j2len st'"
    using jn by (simp add: s Let_def k_def st'_def)
  have run: "np_run a k (min i j)"
    unfolding k_def by (rule np_run_step[OF prev np je])
  from Cons.prems(3) s have bij: "bi = bj" and bsum: "bi + bs \<le> Suc i"
    and cover: "\<forall>i'<i. \<forall>k. np_run a k i' \<longrightarrow> k \<le> bs"
    and entries: "\<forall>j k. newj2len j = Some k \<longrightarrow> np_run a k (min i j)"
    and dg: "diag \<longrightarrow> (\<exists>kd. newj2len i = Some kd \<and> kd \<le> bs \<and> (\<forall>k. np_run a k i \<longrightarrow> k \<le> kd))"
    by (auto simp: cell_ok_def)
  from Cons.prems(1) have sorted_tl: "sorted_wrt (<) js" and above: "\<forall>j'\<in>set js. j < j'"
    by simp_all
  have tl_elems: "\<forall>j\<in>set js. j < n \<and> a ! j = a ! i" using Cons.prems(2) by simp
  have entries': "\<forall>j' k'. (newj2len(j \<mapsto> k)) j' = Some k' \<longrightarrow> np_run a k' (min i j')"
    using entries run by simp
  consider (below) "j < i" | (at) "j = i" | (over) "i < j" by linarith
  then show ?case
  proof cases
    case below
    then have nd: "\<not> diag" and mem: "i \<in> set js" using Cons.prems(4) by auto
    from run below have "np_run a k j" by (simp add: min_def)
    with cover below have le: "k \<le> bs" by blast
    then have st'_eq: "st' = (newj2len(j \<mapsto> k), bi, bj, bs)" by (simp add: st'_def)
    have "cell_ok a i False st'"
      unfolding st'_eq cell_ok_def using bij bsum cover entries' by simp
    from Cons.IH[OF sorted_tl tl_elems this] mem show ?thesis
      unfolding unfold by simp
  next
    case at
    have exact: "\<forall>k'. np_run a k' i \<longrightarrow> k' \<le> k"
      using np_run_diag_exact[OF prev] at unfolding k_def by blast
    from run at have ki: "k \<le> Suc i" by (simp add: np_run_def)
    have here: "(newj2len(j \<mapsto> k)) i = Some k" using at by simp
    have "cell_ok a i True st'"
    proof (cases "bs < k")
      case True
      then have st'_eq: "st' = (newj2len(j \<mapsto> k), Suc i - k, Suc i - k, k)"
        using at by (simp add: st'_def)
      have "\<forall>i'<i. \<forall>k'. np_run a k' i' \<longrightarrow> k' \<le> k"
        using cover True by (meson le_trans less_imp_le_nat)
      then show ?thesis
        unfolding st'_eq cell_ok_def using ki exact entries' here by simp
    next
      case False
      then have st'_eq: "st' = (newj2len(j \<mapsto> k), bi, bj, bs)" by (simp add: st'_def)
      from False have "k \<le> bs" by simp
      then show ?thesis
        unfolding st'_eq cell_ok_def using bij bsum cover exact entries' here by simp
    qed
    moreover have "\<forall>j'\<in>set js. i < j'" using above at by simp
    ultimately show ?thesis
      using Cons.IH[OF sorted_tl tl_elems, of True st'] unfolding unfold by simp
  next
    case over
    then have d: diag using Cons.prems(4) above by fastforce
    with dg obtain kd where kd: "newj2len i = Some kd" "kd \<le> bs"
      "\<forall>k. np_run a k i \<longrightarrow> k \<le> kd" by blast
    from run over have "np_run a k i" by (simp add: min_def)
    with kd have le: "k \<le> bs" by (meson le_trans)
    then have st'_eq: "st' = (newj2len(j \<mapsto> k), bi, bj, bs)" by (simp add: st'_def)
    have here: "(newj2len(j \<mapsto> k)) i = Some kd" using over kd by simp
    have "cell_ok a i True st'"
      unfolding st'_eq cell_ok_def using bij bsum cover entries' here kd by simp
    moreover have "\<forall>j'\<in>set js. i < j'" using above over by auto
    ultimately show ?thesis
      using Cons.IH[OF sorted_tl tl_elems, of True st'] unfolding unfold by simp
  qed
qed

lemma indices_of_sorted: "sorted_wrt (<) (indices_of x b)"
  unfolding indices_of_def by (rule sorted_wrt_filter) (simp add: sorted_wrt_upt)

lemma set_indices_of: "set (indices_of x b) = {j. j < length b \<and> b ! j = x}"
  by (auto simp: indices_of_def)

lemma row_step:
  assumes i: "i < length a"
    and prev: "prev_row_ok a i j2len"
    and best: "best_ok a i best"
  shows "prev_row_ok a (Suc i)
           (fst (longest_inner (b2j a (a ! i)) 0 (length a) i j2len (Map.empty, best))) \<and>
         best_ok a (Suc i)
           (snd (longest_inner (b2j a (a ! i)) 0 (length a) i j2len (Map.empty, best)))"
proof (cases "popular a (a ! i)")
  case True
  obtain bi bj bs where b: "best = (bi, bj, bs)" by (cases best) auto
  have "np_run a k i \<Longrightarrow> k \<le> bs" for k
    using True by (cases k) (auto simp: np_run_def)
  then have "best_ok a (Suc i) best"
    using best b by (auto simp: best_ok_def less_Suc_eq)
  moreover have "prev_row_ok a (Suc i) Map.empty"
    using True by (simp add: prev_row_ok_def)
  ultimately show ?thesis using True by (simp add: b2j_def)
next
  case False
  obtain bi bj bs where b: "best = (bi, bj, bs)" by (cases best) auto
  have start: "cell_ok a i False (Map.empty, best)"
    using best b by (auto simp: cell_ok_def best_ok_def)
  have mem: "i \<in> set (indices_of (a ! i) a)"
    using i by (simp add: set_indices_of)
  have elems: "\<forall>j\<in>set (indices_of (a ! i) a). j < length a \<and> a ! j = a ! i"
    by (simp add: set_indices_of)
  have res: "cell_ok a i True
      (longest_inner (indices_of (a ! i) a) 0 (length a) i j2len (Map.empty, best))"
    using longest_inner_diagonal[OF prev False indices_of_sorted elems start] mem by simp
  obtain nj ri rj rs where r:
    "longest_inner (indices_of (a ! i) a) 0 (length a) i j2len (Map.empty, best) = (nj, ri, rj, rs)"
    by (metis prod_cases4)
  from res r have rij: "ri = rj" and rsum: "ri + rs \<le> Suc i"
    and cover: "\<forall>i'<i. \<forall>k. np_run a k i' \<longrightarrow> k \<le> rs"
    and entries: "\<forall>j k. nj j = Some k \<longrightarrow> np_run a k (min i j)"
    and dg: "\<exists>kd. nj i = Some kd \<and> kd \<le> rs \<and> (\<forall>k. np_run a k i \<longrightarrow> k \<le> kd)"
    by (auto simp: cell_ok_def)
  have "best_ok a (Suc i) (ri, rj, rs)"
    unfolding best_ok_def using rij rsum cover dg
    by (auto simp: less_Suc_eq intro: le_trans)
  moreover have "prev_row_ok a (Suc i) nj"
    unfolding prev_row_ok_def using entries dg by auto
  ultimately show ?thesis using False r by (simp add: b2j_def)
qed

lemma rows_ok:
  assumes "m \<le> length a"
  shows "prev_row_ok a m
           (fst (fold (\<lambda>i (j2len, best).
                   longest_inner (b2j a (a ! i)) 0 (length a) i j2len (Map.empty, best))
                 [0..<m] (Map.empty, (0, 0, 0)))) \<and>
         best_ok a m
           (snd (fold (\<lambda>i (j2len, best).
                   longest_inner (b2j a (a ! i)) 0 (length a) i j2len (Map.empty, best))
                 [0..<m] (Map.empty, (0, 0, 0))))"
  using assms
proof (induction m)
  case 0
  show ?case by (simp add: prev_row_ok_def best_ok_def)
next
  case (Suc m)
  let ?f = "\<lambda>i (j2len, best).
              longest_inner (b2j a (a ! i)) 0 (length a) i j2len (Map.empty, best)"
  obtain j2len best where st: "fold ?f [0..<m] (Map.empty, (0, 0, 0)) = (j2len, best)"
    by (cases "fold ?f [0..<m] (Map.empty, (0, 0, 0))") auto
  from Suc have prev: "prev_row_ok a m j2len" and best: "best_ok a m best"
    by (simp_all add: st)
  from Suc.prems have m: "m < length a" by simp
  have "fold ?f [0..<Suc m] (Map.empty, (0, 0, 0)) =
        longest_inner (b2j a (a ! m)) 0 (length a) m j2len (Map.empty, best)"
    by (simp add: st)
  with row_step[OF m prev best] show ?case by simp
qed

lemma extend_left_same: "extend_left a a 0 0 (bi, bi, bs) = (0, 0, bi + bs)"
proof (induction bi arbitrary: bs)
  case 0
  show ?case by (simp add: extend_left.simps)
next
  case (Suc bi)
  have "extend_left a a 0 0 (Suc bi, Suc bi, bs) = extend_left a a 0 0 (bi, bi, bs + 1)"
    by (subst extend_left.simps) simp
  with Suc[of "bs + 1"] show ?case by simp
qed

lemma extend_right_same:
  "s \<le> n \<Longrightarrow> extend_right a a n n (0, 0, s) = (0, 0, n)"
proof (induction "n - s" arbitrary: s)
  case 0
  then show ?case by (simp add: extend_right.simps)
next
  case (Suc d)
  then have lt: "s < n" by simp
  then have "extend_right a a n n (0, 0, s) = extend_right a a n n (0, 0, s + 1)"
    by (subst extend_right.simps) simp
  moreover have "d = n - (s + 1)" "s + 1 \<le> n" using Suc.hyps(2) lt by simp_all
  ultimately show ?case using Suc.hyps(1)[of "s + 1"] by simp
qed

lemma find_longest_match_same:
  "find_longest_match a a 0 (length a) 0 (length a) = (0, 0, length a)"
proof -
  obtain bi bj bs where r: "snd (longest_rows a a 0 (length a) 0 (length a)) = (bi, bj, bs)"
    by (metis prod_cases3)
  have "best_ok a (length a) (bi, bj, bs)"
    using rows_ok[of "length a" a] r by (simp add: longest_rows_def)
  then have "bi = bj" "bi + bs \<le> length a" by (simp_all add: best_ok_def)
  then show ?thesis
    by (simp add: find_longest_match_def r extend_left_same extend_right_same)
qed

lemma matching_loop_Nil: "matching_loop a b [] blocks = Some blocks"
  by (subst matching_loop.simps) simp

lemma get_opcodes_same:
  "get_opcodes a a = Some (if a = [] then [] else [(Equal, 0, length a, 0, length a)])"
proof -
  have loop: "matching_loop a a [(0, length a, 0, length a)] [] =
              Some (if a = [] then [] else [(0, 0, length a)])"
    by (subst matching_loop.simps) (simp add: find_longest_match_same matching_loop_Nil)
  show ?thesis
    by (simp add: get_opcodes_def get_matching_blocks_def loop)
qed


lemma opcodes_hello:
  "get_opcodes [''hello''] [''hello world''] = Some [(Replace, 0, 1, 0, 1)]"
  by code_simp

lemma splitlines_hello:
  "splitlines k ''hello'' = [''hello'']" "splitlines k ''hello world'' = [''hello world'']"
  by (simp_all add: splitlines_def is_linebreak_def)

lemma opcodes_insert:
  "get_opcodes [''a''] [''a'', ''b''] = Some [(Equal, 0, 1, 0, 1), (Insert, 1, 1, 1, 2)]"
  by code_simp

lemma grouped_same:
  "get_grouped_opcodes 3 (if a = [] then [] else [(Equal, 0, length a, 0, length a)]) = []"
  by (auto simp: get_grouped_opcodes_def fix_first_def fix_last_def Let_def)

lemma calculate_changes_same:
  "calculate_changes c c = Some (Inr \<lparr>added = 0, removed = 0, modified = 0\<rparr>)"
  by (simp add: calculate_changes_def get_opcodes_same changes_of_def sum_size_def)

lemma unified_diff_same: "unified_diff a a fromfile tofile d1 d2 3 lineterm = Some []"
  by (simp add: unified_diff_def get_opcodes_same grouped_same Let_def del: get_grouped_opcodes_def)

text \<open>
  Claim C7. For a version that exists, the diff of the version with itself has an empty
  diff body and the changes 0, 0 and 0; the loop of the matcher ends, and nothing is
  raised. The same holds through the service for the document's session.
\<close>

theorem self_diff_empty:
  assumes "get_version vid collab = Some v"
  shows "get_version_diff vid vid collab =
           Some (Inr (Diff vid vid [] \<lparr>added = 0, removed = 0, modified = 0\<rparr>)) \<and>
         (collaboration_sessions d = Some collab \<longrightarrow>
            service_get_version_diff d vid vid collaboration_sessions =
              Some (Inr (Diff vid vid [] \<lparr>added = 0, removed = 0, modified = 0\<rparr>)))"
  using assms
  by (simp add: get_version_diff_def service_get_version_diff_def unified_diff_same
      calculate_changes_same)

section \<open>Diffs of concrete versions\<close>

lemma hello_sessions_eq:
  "hello_sessions id1 t1 id2 t2 =
     [''d1'' \<mapsto> \<lparr>document_id = ''d1'',
                  versions = [\<lparr>content = ''hello'', author = ''alice'', version_id = id1,
                                timestamp = t1, message = [], comments = []\<rparr>,
                              \<lparr>content = ''hello world'', author = ''alice'', version_id = id2,
                                timestamp = t2, message = [], comments = []\<rparr>]\<rparr>]"
  by (simp add: hello_sessions_def create_document_version_def add_version_def
      new_collaboration_def Let_def)

lemma grouped_replace:
  "get_grouped_opcodes 3 [(Replace, 0, Suc 0, 0, Suc 0)] = [[(Replace, 0, Suc 0, 0, Suc 0)]]"
  by (simp add: get_grouped_opcodes_def fix_first_def fix_last_def Let_def)

text \<open>
  Claim C4, as amended. After a version with content \<^verbatim>\<open>hello\<close> and then one with content
  \<^verbatim>\<open>hello world\<close> have been added to document \<^verbatim>\<open>d1\<close>, with distinct ids, the diff between
  them reports added 0, removed 0 and modified 1 (the one line is replaced), and its text
  is the unified diff of the two one-line contents: the two header lines, the hunk header
  \<^verbatim>\<open>@@ -1 +1 @@\<close>, \<^verbatim>\<open>-hello\<close> and \<^verbatim>\<open>+hello world\<close>.
\<close>

theorem hello_world_diff:
  assumes "id1 \<noteq> id2"
  shows "service_get_version_diff ''d1'' id1 id2 (hello_sessions id1 t1 id2 t2) =
           Some (Inr (Diff id1 id2
             (join [CHR 0x0A]
                [''--- version_'' @ take 8 id1 @ (if t1 \<noteq> [] then CHR 0x09 # t1 else []),
                 ''+++ version_'' @ take 8 id2 @ (if t2 \<noteq> [] then CHR 0x09 # t2 else []),
                 ''@@ -1 +1 @@'',
                 ''-hello'',
                 ''+hello world''])
             \<lparr>added = 0, removed = 0, modified = 1\<rparr>))"
  using assms
  by (simp add: service_get_version_diff_def hello_sessions_eq get_version_diff_def
      get_version_def splitlines_hello unified_diff_def opcodes_hello grouped_replace hunk_def
      group_lines_def slice_def format_range_unified_def str_nat_small digit_char_def
      calculate_changes_def changes_of_def sum_size_def Let_def
      del: join.simps)

theorem hello_world_diff_witness:
  "service_get_version_diff ''d1'' ''1f0c'' ''9ab2''
     (hello_sessions ''1f0c'' ''2024-01-01T00:00:00'' ''9ab2'' ''2024-01-01T00:05:00'') =
   Some (Inr (Diff ''1f0c'' ''9ab2''
     (join [CHR 0x0A]
        [''--- version_1f0c'' @ [CHR 0x09] @ ''2024-01-01T00:00:00'',
         ''+++ version_9ab2'' @ [CHR 0x09] @ ''2024-01-01T00:05:00'',
         ''@@ -1 +1 @@'',
         ''-hello'',
         ''+hello world''])
     \<lparr>added = 0, removed = 0, modified = 1\<rparr>))"
  using hello_world_diff[of "''1f0c''" "''9ab2''" "''2024-01-01T00:00:00''"
      "''2024-01-01T00:05:00''"]
  by simp

text \<open>Claim C4 as stated fails: the number of added lines reported there is 0.\<close>

theorem hello_world_added_counterexample:
  "map_option (map_sum id (\<lambda>r. added (changes r)))
     (service_get_version_diff ''d1'' ''v1'' ''v2'' (hello_sessions ''v1'' ''t1'' ''v2'' ''t2'')) =
   Some (Inr 0)"
  by (simp add: service_get_version_diff_def hello_sessions_eq get_version_diff_def
      get_version_def splitlines_hello unified_diff_def opcodes_hello
      calculate_changes_def changes_of_def sum_size_def Let_def)

lemma splitlines_insert:
  "splitlines k ''a'' = [''a'']"
  "splitlines False [CHR ''a'', CHR 0x0A, CHR ''b''] = [''a'', ''b'']"
  "splitlines True [CHR ''a'', CHR 0x0A, CHR ''b''] = [[CHR ''a'', CHR 0x0A], ''b'']"
  by (simp_all add: splitlines_def is_linebreak_def)

lemma opcodes_insert_keepends:
  "get_opcodes [''a''] [[CHR ''a'', CHR 0x0A], ''b''] = Some [(Replace, 0, 1, 0, 2)]"
  by code_simp

text \<open>
  Claim C3 at a pair of versions of which the second adds a line: the claim asks for added
  1, removed 0 and modified 0, which is what the counters of the specification give on
  the opcodes, and the code raises \<^verbatim>\<open>NameError\<close> in place of an answer.
\<close>

theorem insert_line_raises:
  "service_get_version_diff ''d1'' ''v1'' ''v2'' insert_sessions = Some (Inl NameError) \<and>
   map_option spec_changes
     (get_opcodes (splitlines False ''a'') (splitlines False [CHR ''a'', CHR 0x0A, CHR ''b''])) =
     Some \<lparr>added = 1, removed = 0, modified = 0\<rparr>"
  by (simp add: service_get_version_diff_def insert_sessions_def create_document_version_def
      add_version_def new_collaboration_def get_version_diff_def get_version_def
      splitlines_insert unified_diff_def opcodes_insert opcodes_insert_keepends
      calculate_changes_def changes_of_def sum_size_def spec_changes_def Let_def)

text \<open>Whenever the counters are returned at all, added and removed are 0.\<close>

lemma changes_of_counts_nothing:
  "changes_of opcodes = Inr c \<Longrightarrow> added c = 0 \<and> removed c = 0"
  by (auto simp: changes_of_def sum_size_def split: sum.splits if_splits)

lemma insert_sessions_eq:
  "insert_sessions =
     [''d1'' \<mapsto> \<lparr>document_id = ''d1'',
                  versions = [\<lparr>content = ''a'', author = ''alice'', version_id = ''v1'',
                                timestamp = ''2024-01-01T00:00:00'', message = [],
                                comments = []\<rparr>,
                              \<lparr>content = [CHR ''a'', CHR 0x0A, CHR ''b''], author = ''alice'',
                                version_id = ''v2'', timestamp = ''2024-01-02T00:00:00'',
                                message = [], comments = []\<rparr>]\<rparr>]"
  by (simp add: insert_sessions_def create_document_version_def add_version_def
      new_collaboration_def Let_def)

theorem self_diff_empty_witness:
  "service_get_version_diff ''d1'' ''v2'' ''v2'' insert_sessions =
     Some (Inr (Diff ''v2'' ''v2'' [] \<lparr>added = 0, removed = 0, modified = 0\<rparr>))"
  using self_diff_empty[of "''v2''"
      "\<lparr>document_id = ''d1'',
        versions = [\<lparr>content = ''a'', author = ''alice'', version_id = ''v1'',
                      timestamp = ''2024-01-01T00:00:00'', message = [], comments = []\<rparr>,
                    \<lparr>content = [CHR ''a'', CHR 0x0A, CHR ''b''], author = ''alice'',
                      version_id = ''v2'', timestamp = ''2024-01-02T00:00:00'',
                      message = [], comments = []\<rparr>]\<rparr>"
      "\<lparr>content = [CHR ''a'', CHR 0x0A, CHR ''b''], author = ''alice'', version_id = ''v2'',
        timestamp = ''2024-01-02T00:00:00'', message = [], comments = []\<rparr>"
      insert_sessions "''d1''"]
  by (simp add: insert_sessions_eq get_version_def)

text \<open>
  Claim C1 as stated fails: after two versions have been added to a document, the
  versions the store holds and lists carry their ids, timestamps, authors, messages,
  comments and contents, and no sequence number.
\<close>

theorem versions_carry_no_number_counterexample:
  "stored_versions ''d1'' (hello_sessions ''v1'' ''t1'' ''v2'' ''t2'') =
     [\<lparr>content = ''hello'', author = ''alice'', version_id = ''v1'', timestamp = ''t1'',
       message = [], comments = []\<rparr>,
      \<lparr>content = ''hello world'', author = ''alice'', version_id = ''v2'', timestamp = ''t2'',
       message = [], comments = []\<rparr>] \<and>
   get_document_versions ''d1'' (hello_sessions ''v1'' ''t1'' ''v2'' ''t2'') =
     [[(''version_id'', JStr ''v1''), (''timestamp'', JStr ''t1''), (''author'', JStr ''alice''),
       (''message'', JStr []), (''content_length'', JInt 5)],
      [(''version_id'', JStr ''v2''), (''timestamp'', JStr ''t2''), (''author'', JStr ''alice''),
       (''message'', JStr []), (''content_length'', JInt 11)]]"
  by (simp add: hello_sessions_eq stored_versions_def get_document_versions_def
      version_summary_def)


end
